theory Spec2Isabelle
  imports Complex_Main "HOL-Library.Char_ord" "HOL-Library.List_Lexorder"
begin

section \<open>Values, errors and the host environment\<close>

text \<open>
  JavaScript values as far as \<open>lib/logger.js\<close> inspects them: option fields, log
  arguments and error objects. A number is a rational (every finite double is one) or
  one of the non-finite doubles. An \<open>Error\<close> carries its message and, when present,
  its stack.

  A string is the list of its UTF-16 code units, one \<open>char\<close> for each: the strings of
  the model are those whose code units are below 256. The logger copies, joins, measures
  and compares them, which goes unit by unit. The one place where it transforms a string
  is the level name that \<open>setLevel\<close> upper-cases; there the code units above 255 matter,
  and a level name is a list of 16-bit code units (\<open>code_units\<close> below).
\<close>

datatype jsval =
    JUndefined
  | JNull
  | JBool bool
  | JNum rat
  | JNaN
  | JInfinity bool
  | JStr string
  | JObject string
  | JError string "string option"

datatype error =
    AssertionError string
  | TypeError string
  | SyntaxError string
  | IoError string

text \<open>
  What the module imports and reads from its host: \<open>fs.unsupported\<close>,
  \<open>Logger.HAS_TTY\<close>, whether \<open>process.stdout\<close> exists, the formatter of
  \<open>./format\<close> and the functions of Node's \<open>path\<close> that \<open>rotate\<close> calls.
\<close>

record host =
  fs_unsupported :: bool
  has_tty :: bool
  has_stdout :: bool
  fmt :: "jsval list \<Rightarrow> bool \<Rightarrow> string"
  path_extname :: "string \<Rightarrow> string"
  path_basename :: "string \<Rightarrow> string \<Rightarrow> string"
  path_dirname :: "string \<Rightarrow> string"
  path_join :: "string \<Rightarrow> string \<Rightarrow> string"

text \<open>A \<open>LoggerContext\<close> object: its identity and its module label.\<close>

record ctx =
  ctx_ref :: nat
  ctx_module :: string

section \<open>The Logger object\<close>

text \<open>
  The fields of \<open>class Logger\<close>; \<open>closed_flag\<close> is \<open>closed\<close>, \<open>fileSize\<close> and
  \<open>buffer\<close> are \<open>_fileSize\<close> and \<open>_buffer\<close>. \<open>stream\<close> holds the handle of
  the open write stream, \<open>timer\<close> the due time of the outstanding retry timeout (the
  constructor leaves \<open>this.timer\<close> undefined).
\<close>

record logger =
  level :: nat
  colors :: bool
  maxFileSize :: nat
  maxFiles :: nat
  timestamps :: bool
  console :: bool
  closed_flag :: bool
  closing :: bool
  filename :: "string option"
  stream :: "nat option"
  contexts :: "string \<rightharpoonup> ctx"
  rotating :: bool
  fileSize :: nat
  buffer :: "string list"
  timer :: "nat option"

definition MAX_FILE_SIZE :: nat where
  "MAX_FILE_SIZE = 20 * 2 ^ 20"

definition MAX_ARCHIVAL_FILES :: nat where
  "MAX_ARCHIVAL_FILES = 10"

text \<open>
  A string by its 16-bit code units, each a number below 65536, and the code units of a
  string of the model.
\<close>

type_synonym code_units = "nat list"

definition units :: "string \<Rightarrow> code_units" where
  "units s = map of_char s"

text \<open>
  \<open>Logger.levels\<close>, read by a computed key. The object inherits properties such as
  \<open>constructor\<close>, but each of their names has a lower-case ASCII letter, which no
  upper-case form has: for the keys \<open>setLevel\<close> looks up, the object is this table.
\<close>

definition levels :: "code_units \<rightharpoonup> nat" where
  "levels = map_of [(units ''NONE'', 0), (units ''ERROR'', 1), (units ''WARNING'', 2),
     (units ''INFO'', 3), (units ''DEBUG'', 4), (units ''SPAM'', 5)]"

definition levelsByVal :: "string list" where
  "levelsByVal = [''none'', ''error'', ''warning'', ''info'', ''debug'', ''spam'']"

definition prefixByVal :: "string list" where
  "prefixByVal = [''N'', ''E'', ''W'', ''I'', ''D'', ''S'']"

definition styles :: "string list" where
  "styles = [''0'', ''1;31'', ''1;33'', ''94'', ''90'', ''90'']"

text \<open>Reading an array by index: \<open>undefined\<close> out of range.\<close>

definition at_index :: "'a list \<Rightarrow> nat \<Rightarrow> 'a option" where
  "at_index xs i = (if i < length xs then Some (xs ! i) else None)"

text \<open>
  \<open>String.prototype.toUpperCase\<close>, which follows the Unicode case mappings whatever the
  locale. The code units whose upper-case form consists of ASCII characters are mapped
  as Unicode maps them: the letters \<open>a\<close> to \<open>z\<close>, the dotless i (U+0131, to \<open>I\<close>),
  the long s (U+017F, to \<open>S\<close>), the sharp s (U+00DF, to \<open>SS\<close>) and the ligatures
  U+FB00 to U+FB06 (\<open>FF\<close>, \<open>FI\<close>, \<open>FL\<close>, \<open>FFI\<close>, \<open>FFL\<close>, \<open>ST\<close>, \<open>ST\<close>). Every
  other code unit is kept. The other ASCII code units are their own upper-case form.
  A code unit above 127 that is kept stands for an upper-case form that also holds a code
  unit above 127 (U+00E9 gives U+00C9, U+0149 gives U+02BC and \<open>N\<close>), which this
  model does not compute. So the result is a string of ASCII code units exactly when the
  upper-case form is one, and then it is that string: the lookup of a level name, whose
  keys are ASCII, is the lookup of the source.
\<close>

definition upper_unit :: "nat \<Rightarrow> code_units" where
  "upper_unit u =
     (if 97 \<le> u \<and> u \<le> 122 then [u - 32]
      else if u = 0x131 then [0x49]
      else if u = 0x17F then [0x53]
      else if u = 0xDF then [0x53, 0x53]
      else if u = 0xFB00 then [0x46, 0x46]
      else if u = 0xFB01 then [0x46, 0x49]
      else if u = 0xFB02 then [0x46, 0x4C]
      else if u = 0xFB03 then [0x46, 0x46, 0x49]
      else if u = 0xFB04 then [0x46, 0x46, 0x4C]
      else if u = 0xFB05 \<or> u = 0xFB06 then [0x53, 0x54]
      else [u])"

definition toUpperCase :: "code_units \<Rightarrow> code_units" where
  "toUpperCase s = concat (map upper_unit s)"

text \<open>The state the constructor leaves before it applies any options.\<close>

definition init_logger :: "host \<Rightarrow> logger" where
  "init_logger h =
     \<lparr> level = 0, colors = has_tty h, maxFileSize = MAX_FILE_SIZE,
       maxFiles = MAX_ARCHIVAL_FILES, timestamps = True, console = True,
       closed_flag = True, closing = False, filename = None, stream = None,
       contexts = Map.empty, rotating = False, fileSize = 0, buffer = [],
       timer = None \<rparr>"

subsection \<open>Configuration: \<open>setLevel\<close> and \<open>set\<close>\<close>

text \<open>
  A method that may throw returns the exception or its value together with the logger
  as the exception leaves it: what was assigned before the throw stays assigned.
\<close>

type_synonym 'a outcome = "(error + 'a) \<times> logger"

definition setLevel :: "code_units \<Rightarrow> logger \<Rightarrow> unit outcome" where
  "setLevel levelName s =
     (case levels (toUpperCase levelName) of
        None \<Rightarrow> (Inl (AssertionError ''Invalid log level.''), s)
      | Some l \<Rightarrow> (Inr (), s\<lparr>level := l\<rparr>))"

text \<open>The option bag of \<open>set\<close>: every property is a value, \<open>undefined\<close> when absent.\<close>

record options =
  opt_level :: jsval
  opt_colors :: jsval
  opt_timestamps :: jsval
  opt_console :: jsval
  opt_filename :: jsval
  opt_maxFileSize :: jsval
  opt_maxFiles :: jsval

text \<open>
  The argument of \<open>set\<close>: a string, which is a level name, or an option bag. A level
  given in the bag is a string value of the model, its code units below 256.
\<close>

datatype set_arg = SetString code_units | SetOptions options


text \<open>\<open>x != null\<close>: neither \<open>null\<close> nor \<open>undefined\<close>.\<close>

definition not_nullish :: "jsval \<Rightarrow> bool" where
  "not_nullish v = (v \<noteq> JUndefined \<and> v \<noteq> JNull)"

text \<open>
  \<open>x >>> 0\<close> on a finite number: truncate towards zero, then reduce modulo \<open>2^32\<close>.
\<close>

definition to_uint32 :: "rat \<Rightarrow> int" where
  "to_uint32 r = (if 0 \<le> r then \<lfloor>r\<rfloor> else \<lceil>r\<rceil>) mod 2 ^ 32"

text \<open>
  \<open>(x >>> 0) === x\<close>. The shift of a non-number, of \<open>NaN\<close> or of an infinity is a
  number that is not strictly equal to the operand.
\<close>

definition is_uint32 :: "jsval \<Rightarrow> bool" where
  "is_uint32 v = (case v of JNum r \<Rightarrow> of_int (to_uint32 r) = r | _ \<Rightarrow> False)"

definition uint32_of :: "jsval \<Rightarrow> nat" where
  "uint32_of v = (case v of JNum r \<Rightarrow> nat (to_uint32 r) | _ \<Rightarrow> 0)"

definition seq :: "(logger \<Rightarrow> unit outcome) \<Rightarrow> (logger \<Rightarrow> unit outcome) \<Rightarrow> logger \<Rightarrow> unit outcome" where
  "seq f g s = (case f s of (Inl e, s') \<Rightarrow> (Inl e, s') | (Inr u, s') \<Rightarrow> g s')"

definition js_assert :: "bool \<Rightarrow> string \<Rightarrow> logger \<Rightarrow> unit outcome" where
  "js_assert b msg s = (if b then (Inr (), s) else (Inl (AssertionError msg), s))"

definition set_level_option :: "options \<Rightarrow> logger \<Rightarrow> unit outcome" where
  "set_level_option opts s =
     (if not_nullish (opt_level opts)
      then (case opt_level opts of
              JStr l \<Rightarrow> setLevel (units l) s
            | _ \<Rightarrow> (Inl (AssertionError ''Assertion failed.''), s))
      else (Inr (), s))"

definition set_colors_option :: "host \<Rightarrow> options \<Rightarrow> logger \<Rightarrow> unit outcome" where
  "set_colors_option h opts s =
     (if not_nullish (opt_colors opts) \<and> has_tty h
      then (case opt_colors opts of
              JBool b \<Rightarrow> (Inr (), s\<lparr>colors := b\<rparr>)
            | _ \<Rightarrow> (Inl (AssertionError ''Assertion failed.''), s))
      else (Inr (), s))"

definition set_timestamps_option :: "options \<Rightarrow> logger \<Rightarrow> unit outcome" where
  "set_timestamps_option opts s =
     (if not_nullish (opt_timestamps opts)
      then (case opt_timestamps opts of
              JBool b \<Rightarrow> (Inr (), s\<lparr>timestamps := b\<rparr>)
            | _ \<Rightarrow> (Inl (AssertionError ''Assertion failed.''), s))
      else (Inr (), s))"

definition set_console_option :: "options \<Rightarrow> logger \<Rightarrow> unit outcome" where
  "set_console_option opts s =
     (if not_nullish (opt_console opts)
      then (case opt_console opts of
              JBool b \<Rightarrow> (Inr (), s\<lparr>console := b\<rparr>)
            | _ \<Rightarrow> (Inl (AssertionError ''Assertion failed.''), s))
      else (Inr (), s))"

definition set_filename_option :: "options \<Rightarrow> logger \<Rightarrow> unit outcome" where
  "set_filename_option opts s =
     (if not_nullish (opt_filename opts)
      then (case opt_filename opts of
              JStr f \<Rightarrow> (Inr (), s\<lparr>filename := Some f\<rparr>)
            | _ \<Rightarrow> (Inl (AssertionError ''Bad file.''), s))
      else (Inr (), s))"

definition set_maxFileSize_option :: "options \<Rightarrow> logger \<Rightarrow> unit outcome" where
  "set_maxFileSize_option opts s =
     (if not_nullish (opt_maxFileSize opts)
      then (if is_uint32 (opt_maxFileSize opts)
            then (Inr (), s\<lparr>maxFileSize := uint32_of (opt_maxFileSize opts)\<rparr>)
            else (Inl (AssertionError ''Assertion failed.''), s))
      else (Inr (), s))"

definition set_maxFiles_option :: "options \<Rightarrow> logger \<Rightarrow> unit outcome" where
  "set_maxFiles_option opts s =
     (if not_nullish (opt_maxFiles opts)
      then (if is_uint32 (opt_maxFiles opts)
            then (Inr (), s\<lparr>maxFiles := uint32_of (opt_maxFiles opts)\<rparr>)
            else (Inl (AssertionError ''Assertion failed.''), s))
      else (Inr (), s))"

text \<open>
  \<open>set(options)\<close>: the two leading assertions (a string argument is falsy when empty, an
  object never), then the options in the order the source tests them.
\<close>

definition set_options :: "host \<Rightarrow> set_arg \<Rightarrow> logger \<Rightarrow> unit outcome" where
  "set_options h arg =
     seq (js_assert (arg \<noteq> SetString []) ''Assertion failed.'')
    (seq (\<lambda>s. js_assert (closed_flag s) ''Assertion failed.'' s)
     (case arg of
        SetString l \<Rightarrow> setLevel l
      | SetOptions opts \<Rightarrow>
          seq (set_level_option opts)
         (seq (set_colors_option h opts)
         (seq (set_timestamps_option opts)
         (seq (set_console_option opts)
         (seq (set_filename_option opts)
         (seq (set_maxFileSize_option opts)
              (set_maxFiles_option opts))))))))"

text \<open>\<open>new Logger(options)\<close>: \<open>set\<close> runs only for a truthy argument.\<close>

definition new_logger :: "host \<Rightarrow> set_arg option \<Rightarrow> logger outcome" where
  "new_logger h arg =
     (case arg of
        None \<Rightarrow> (Inr (init_logger h), init_logger h)
      | Some (SetString []) \<Rightarrow> (Inr (init_logger h), init_logger h)
      | Some a \<Rightarrow>
          (case set_options h a (init_logger h) of
             (Inl e, s) \<Rightarrow> (Inl e, s)
           | (Inr u, s) \<Rightarrow> (Inr s, s)))"

section \<open>Time stamps\<close>

text \<open>
  The instant \<open>new Date()\<close> returns, by its UTC fields, as \<open>toISOString\<close> reads them.
\<close>

record instant =
  year :: int
  month :: nat
  day :: nat
  hour :: nat
  minute :: nat
  second :: nat
  millisecond :: nat

definition valid_instant :: "instant \<Rightarrow> bool" where
  "valid_instant t =
     (- 271821 \<le> year t \<and> year t \<le> 275760 \<and> 1 \<le> month t \<and> month t \<le> 12 \<and>
      1 \<le> day t \<and> day t \<le> 31 \<and> hour t < 24 \<and> minute t < 60 \<and> second t < 60 \<and>
      millisecond t < 1000)"

text \<open>Chronological order of two instants: the order of their fields, year first.\<close>

definition instant_key :: "instant \<Rightarrow> int list" where
  "instant_key t =
     [year t, int (month t), int (day t), int (hour t), int (minute t), int (second t),
      int (millisecond t)]"

definition digit :: "nat \<Rightarrow> char" where
  "digit d = char_of (48 + d)"

fun pad :: "nat \<Rightarrow> nat \<Rightarrow> string" where
  "pad 0 n = []"
| "pad (Suc k) n = pad k (n div 10) @ [digit (n mod 10)]"

text \<open>
  The year of \<open>Date.prototype.toISOString\<close>: four digits from 0 to 9999, a sign and six
  digits otherwise.
\<close>

definition year_string :: "int \<Rightarrow> string" where
  "year_string y =
     (if 0 \<le> y \<and> y \<le> 9999 then pad 4 (nat y)
      else (if y < 0 then ''-'' else ''+'') @ pad 6 (nat \<bar>y\<bar>))"

definition toJSON :: "instant \<Rightarrow> string" where
  "toJSON t =
     year_string (year t) @ ''-'' @ pad 2 (month t) @ ''-'' @ pad 2 (day t) @ ''T'' @
     pad 2 (hour t) @ '':'' @ pad 2 (minute t) @ '':'' @ pad 2 (second t) @ ''.'' @
     pad 3 (millisecond t) @ ''Z''"

text \<open>\<open>s.replace(/c/g, d)\<close> for a one-character pattern.\<close>

definition replace_all :: "char \<Rightarrow> char \<Rightarrow> string \<Rightarrow> string" where
  "replace_all c d s = map (\<lambda>x. if x = c then d else x) s"

text \<open>\<open>s.replace(c, d)\<close> with a string pattern: the first occurrence only.\<close>

fun replace_first :: "char \<Rightarrow> char \<Rightarrow> string \<Rightarrow> string" where
  "replace_first c d [] = []"
| "replace_first c d (x # xs) = (if x = c then d # xs else x # replace_first c d xs)"

text \<open>
  \<open>slice(start, end)\<close> of strings and arrays: a negative index counts from the end, and
  both are clamped to the length. \<open>-1 * 0\<close> is \<open>-0\<close>, which \<open>slice\<close> reads as \<open>0\<close>.
\<close>

definition js_slice :: "'a list \<Rightarrow> int \<Rightarrow> int \<Rightarrow> 'a list" where
  "js_slice xs start fin =
     (let len = int (length xs);
          k = (if start < 0 then max (len + start) 0 else min start len);
          f = (if fin < 0 then max (len + fin) 0 else min fin len)
      in take (nat (f - k)) (drop (nat k) xs))"

definition dateString :: "instant \<Rightarrow> string" where
  "dateString now =
     js_slice (replace_first (CHR ''.'') (CHR ''-'')
                (replace_first (CHR ''T'') (CHR ''_'')
                  (replace_all (CHR '':'') (CHR ''-'') (toJSON now)))) 0 (- 1)"

text \<open>The directory entry \<open>rotate\<close> renames the log file to, before \<open>Path.join\<close>.\<close>

definition archive_entry :: "string \<Rightarrow> string \<Rightarrow> instant \<Rightarrow> string" where
  "archive_entry base ext now = base @ ''_'' @ dateString now @ ext"

definition archive_path :: "host \<Rightarrow> string \<Rightarrow> instant \<Rightarrow> string" where
  "archive_path h file now =
     (let ext = path_extname h file;
          base = path_basename h file ext;
          dir = path_dirname h file
      in path_join h dir (archive_entry base ext now))"

text \<open>The years that \<open>toISOString\<close> writes with four digits.\<close>

definition four_digit_year :: "instant \<Rightarrow> bool" where
  "four_digit_year t = (0 \<le> year t \<and> year t \<le> 9999)"

section \<open>Regular expressions\<close>

text \<open>
  The fragment of \<open>RegExp\<close> that \<open>prune\<close>'s pattern uses when the base name and the
  extension hold no other syntax character: literal characters, the dot, and the
  quantifiers \<open>*\<close>, \<open>+\<close> and \<open>?\<close> (a \<open>?\<close> after a quantifier makes it lazy, which
  \<open>test\<close> cannot tell from greedy). A quantifier with nothing to repeat is a
  \<open>SyntaxError\<close>. A source with a backslash, an anchor, a bar, a parenthesis, a bracket
  or a brace is outside the fragment.
\<close>

datatype atom = Lit char | Dot

datatype quant = Once | ZeroOrOne | ZeroOrMore | OneOrMore

type_synonym re_item = "atom \<times> quant"

datatype regexp = Regexp "re_item list" | RegexpSyntaxError | RegexpUnmodelled

datatype pstate = NoAtom | AfterAtom | AfterQuant

definition quant_of :: "char \<Rightarrow> quant option" where
  "quant_of c =
     (if c = CHR ''*'' then Some ZeroOrMore else if c = CHR ''+'' then Some OneOrMore
      else if c = CHR ''?'' then Some ZeroOrOne else None)"

definition outside_fragment :: "char \<Rightarrow> bool" where
  "outside_fragment c = (c \<in> set [CHR 0x5C, CHR ''^'', CHR ''$'', CHR ''|'', CHR ''('',
     CHR '')'', CHR ''['', CHR '']'', CHR ''{'', CHR ''}''])"

definition atom_of :: "char \<Rightarrow> atom" where
  "atom_of c = (if c = CHR ''.'' then Dot else Lit c)"

fun re_parse :: "pstate \<Rightarrow> re_item list \<Rightarrow> string \<Rightarrow> regexp" where
  "re_parse st acc [] = Regexp (rev acc)"
| "re_parse st acc (c # cs) =
     (case quant_of c of
        Some q \<Rightarrow>
          (case st of
             AfterAtom \<Rightarrow>
               (case acc of
                  [] \<Rightarrow> RegexpSyntaxError
                | (a, q0) # acc' \<Rightarrow> re_parse AfterQuant ((a, q) # acc') cs)
           | AfterQuant \<Rightarrow> (if q = ZeroOrOne then re_parse NoAtom acc cs else RegexpSyntaxError)
           | NoAtom \<Rightarrow> RegexpSyntaxError)
      | None \<Rightarrow>
          (if outside_fragment c then RegexpUnmodelled
           else re_parse AfterAtom ((atom_of c, Once) # acc) cs))"

definition new_RegExp :: "string \<Rightarrow> regexp" where
  "new_RegExp src = re_parse NoAtom [] src"

text \<open>The dot matches every character but a line terminator.\<close>

definition atom_matches :: "atom \<Rightarrow> char \<Rightarrow> bool" where
  "atom_matches a c =
     (case a of Lit x \<Rightarrow> c = x | Dot \<Rightarrow> c \<noteq> CHR 0x0A \<and> c \<noteq> CHR 0x0D)"

text \<open>Whether the pattern matches a prefix of the string.\<close>

fun match_here :: "re_item list \<Rightarrow> string \<Rightarrow> bool" where
  "match_here [] s = True"
| "match_here ((a, Once) # p) [] = False"
| "match_here ((a, Once) # p) (c # cs) = (atom_matches a c \<and> match_here p cs)"
| "match_here ((a, ZeroOrOne) # p) [] = match_here p []"
| "match_here ((a, ZeroOrOne) # p) (c # cs) =
     ((atom_matches a c \<and> match_here p cs) \<or> match_here p (c # cs))"
| "match_here ((a, ZeroOrMore) # p) [] = match_here p []"
| "match_here ((a, ZeroOrMore) # p) (c # cs) =
     ((atom_matches a c \<and> match_here ((a, ZeroOrMore) # p) cs) \<or> match_here p (c # cs))"
| "match_here ((a, OneOrMore) # p) [] = False"
| "match_here ((a, OneOrMore) # p) (c # cs) =
     (atom_matches a c \<and> match_here ((a, ZeroOrMore) # p) cs)"

text \<open>\<open>re.test(s)\<close> without anchors: a match may start anywhere.\<close>

fun re_test :: "re_item list \<Rightarrow> string \<Rightarrow> bool" where
  "re_test p [] = match_here p []"
| "re_test p (c # cs) = (match_here p (c # cs) \<or> re_test p cs)"

text \<open>
  A character that \<open>new RegExp\<close> reads as itself or as the dot, and the least length
  of a string that a pattern matches.
\<close>

definition plain_char :: "char \<Rightarrow> bool" where
  "plain_char c = (quant_of c = None \<and> \<not> outside_fragment c)"

definition min_len :: "re_item list \<Rightarrow> nat" where
  "min_len p = length (filter (\<lambda>i. snd i = Once \<or> snd i = OneOrMore) p)"

section \<open>Retention pruning\<close>

text \<open>
  \<open>prune(dir, base, ext)\<close> up to its loop, on the listing that \<open>fs.readdir(dir)\<close>
  resolved with: the entries the pattern matches, and of them the ones to unlink, in
  order. \<open>None\<close> when the pattern is outside the modelled fragment.
\<close>

definition prune_candidates :: "string \<Rightarrow> string \<Rightarrow> string list \<Rightarrow> (error + string list) option" where
  "prune_candidates base ext files =
     (case new_RegExp (base @ ''_.*'' @ ext) of
        RegexpUnmodelled \<Rightarrow> None
      | RegexpSyntaxError \<Rightarrow> Some (Inl (SyntaxError ''Invalid regular expression''))
      | Regexp re \<Rightarrow> Some (Inr (filter (re_test re) files)))"

definition prune_selection :: "nat \<Rightarrow> string list \<Rightarrow> string list" where
  "prune_selection mf oldFiles =
     (if length oldFiles \<le> mf then []
      else js_slice (sort oldFiles) 0 (- 1 * int mf))"

text \<open>
  The loop: one \<open>fs.unlink\<close> per selected entry; a rejected unlink throws out of the
  loop. The result lists the paths unlinked before.
\<close>

fun unlink_each :: "(string \<Rightarrow> bool) \<Rightarrow> string list \<Rightarrow> (error + unit) \<times> string list" where
  "unlink_each unlink_ok [] = (Inr (), [])"
| "unlink_each unlink_ok (p # ps) =
     (if unlink_ok p
      then (case unlink_each unlink_ok ps of (r, done) \<Rightarrow> (r, p # done))
      else (Inl (IoError ''unlink''), []))"

definition prune :: "host \<Rightarrow> logger \<Rightarrow> (string \<Rightarrow> bool) \<Rightarrow> string list \<Rightarrow> string \<Rightarrow> string \<Rightarrow> string \<Rightarrow>
    ((error + unit) \<times> string list) option" where
  "prune h s unlink_ok files dir base ext =
     (case prune_candidates base ext files of
        None \<Rightarrow> None
      | Some (Inl e) \<Rightarrow> Some (Inl e, [])
      | Some (Inr oldFiles) \<Rightarrow>
          Some (unlink_each unlink_ok (map (path_join h dir) (prune_selection (maxFiles s) oldFiles))))"

section \<open>Effects and asynchronous calls\<close>

text \<open>
  Every call the logger makes on a stream, the file system, a timer or the console, in
  the order it makes them. \<open>next_id\<close> numbers the objects created: stream handles and
  contexts. A stream gets its handle when it has opened; the close by which
  \<open>openStream\<close> discards a stream that failed to open is on no handle and is not
  listed.
\<close>

datatype effect =
    StreamWrite nat string
  | StreamClose nat
  | CreateWriteStream string
  | FsStat string
  | FsRename string string
  | FsReaddir string
  | SetTimeout nat
  | ClearTimeout
  | ConsoleLog string "jsval option"
  | ConsoleError string "jsval option"
  | ConsoleErrorValue jsval
  | StdoutWrite string
  | StderrWrite string

record world =
  trace :: "effect list"
  next_id :: nat

definition emit :: "effect \<Rightarrow> world \<Rightarrow> world" where
  "emit e w = w\<lparr>trace := trace w @ [e]\<rparr>"

text \<open>The messages written to one stream handle, in order.\<close>

definition written_to :: "nat \<Rightarrow> world \<Rightarrow> string list" where
  "written_to st w = concat (map (\<lambda>e. case e of StreamWrite st' m \<Rightarrow> if st' = st then [m] else [] | _ \<Rightarrow> []) (trace w))"

text \<open>
  How an awaited operation settles: resolved (with the size, for \<open>fs.stat\<close>) or
  rejected with an error code.
\<close>

datatype io_result = IoOk nat | IoFail string

text \<open>
  An \<open>async\<close> method runs to its first \<open>await\<close> when called and is resumed when the
  awaited operation settles. A task is where the method stands: settled, or suspended
  at one of its \<open>await\<close>s with the local variables it needs afterwards.
\<close>

datatype close_task = CloseResolved | CloseRejected error | CloseAwaitStream

datatype open_task = OpenResolved | OpenRejected error | OpenAwaitStat | OpenAwaitStream

datatype rotate_task =
    RotResolved "string option"
  | RotRejected error
  | RotInClose close_task
  | RotAwaitRename string string string string
  | RotInOpen open_task string string string string

datatype reopen_task = ReopenResolved | ReopenAwaitStream

text \<open>\<open>!this.filename\<close> is false for a non-empty string only.\<close>

definition filename_set :: "logger \<Rightarrow> bool" where
  "filename_set s = (case filename s of None \<Rightarrow> False | Some f \<Rightarrow> f \<noteq> [])"

subsection \<open>\<open>close\<close> and \<open>open\<close>\<close>

definition close_call :: "host \<Rightarrow> logger \<Rightarrow> world \<Rightarrow> close_task \<times> logger \<times> world" where
  "close_call h s w =
     (let (s1, w1) = (if timer s \<noteq> None then (s\<lparr>timer := None\<rparr>, emit ClearTimeout w) else (s, w))
      in if fs_unsupported h then (CloseResolved, s1\<lparr>closed_flag := True, stream := None\<rparr>, w1)
         else (case stream s1 of
                 Some st \<Rightarrow> (CloseAwaitStream, s1\<lparr>closing := True\<rparr>, emit (StreamClose st) w1)
               | None \<Rightarrow> (CloseResolved, s1\<lparr>fileSize := 0, closed_flag := True\<rparr>, w1)))"

definition close_resume :: "io_result \<Rightarrow> close_task \<Rightarrow> logger \<Rightarrow> close_task \<times> logger" where
  "close_resume io t s =
     (case t of
        CloseAwaitStream \<Rightarrow>
          (case io of
             IoOk n \<Rightarrow> (CloseResolved, s\<lparr>closing := False, stream := None, fileSize := 0, closed_flag := True\<rparr>)
           | IoFail c \<Rightarrow> (CloseRejected (IoError c), s\<lparr>closing := False\<rparr>))
      | _ \<Rightarrow> (t, s))"

definition open_call :: "host \<Rightarrow> logger \<Rightarrow> world \<Rightarrow> open_task \<times> logger \<times> world" where
  "open_call h s w =
     (if \<not> filename_set s then (OpenResolved, s\<lparr>closed_flag := False\<rparr>, w)
      else if stream s \<noteq> None then (OpenResolved, s\<lparr>closed_flag := False\<rparr>, w)
      else if fs_unsupported h then (OpenResolved, s\<lparr>closed_flag := False\<rparr>, w)
      else (case filename s of
              None \<Rightarrow> (OpenRejected (TypeError ''path''), s, w)
            | Some f \<Rightarrow> (OpenAwaitStat, s, emit (FsStat f) w)))"

definition open_resume :: "io_result \<Rightarrow> open_task \<Rightarrow> logger \<Rightarrow> world \<Rightarrow> open_task \<times> logger \<times> world" where
  "open_resume io t s w =
     (case t of
        OpenAwaitStat \<Rightarrow>
          (case filename s of
             None \<Rightarrow> (OpenRejected (TypeError ''path''), s, w)
           | Some f \<Rightarrow>
               (case io of
                  IoOk n \<Rightarrow> (OpenAwaitStream, s\<lparr>fileSize := n\<rparr>, emit (CreateWriteStream f) w)
                | IoFail c \<Rightarrow>
                    (if c = ''ENOENT''
                     then (OpenAwaitStream, s\<lparr>fileSize := 0\<rparr>, emit (CreateWriteStream f) w)
                     else (OpenRejected (IoError c), s, w))))
      | OpenAwaitStream \<Rightarrow>
          (case io of
             IoOk n \<Rightarrow>
               (OpenResolved, s\<lparr>stream := Some (next_id w), closed_flag := False\<rparr>,
                w\<lparr>next_id := Suc (next_id w)\<rparr>)
           | IoFail c \<Rightarrow> (OpenRejected (IoError c), s, w))
      | _ \<Rightarrow> (t, s, w))"

subsection \<open>\<open>rotate\<close>\<close>

text \<open>The loop of \<open>rotate\<close> that replays \<open>_buffer\<close>: shift, write, count.\<close>

fun drain_from :: "string list \<Rightarrow> logger \<Rightarrow> world \<Rightarrow> (error + unit) \<times> logger \<times> world" where
  "drain_from [] s w = (Inr (), s, w)"
| "drain_from (msg # rest) s w =
     (case stream s of
        None \<Rightarrow> (Inl (TypeError ''write''), s\<lparr>buffer := rest\<rparr>, w)
      | Some st \<Rightarrow>
          drain_from rest (s\<lparr>buffer := rest, fileSize := fileSize s + length msg\<rparr>)
            (emit (StreamWrite st msg) w))"

definition drain :: "logger \<Rightarrow> world \<Rightarrow> (error + unit) \<times> logger \<times> world" where
  "drain s w = drain_from (buffer s) s w"

text \<open>What follows \<open>await this.open()\<close>: the replay, the flag, the call of \<open>prune\<close>.\<close>

definition rotate_finish :: "string \<Rightarrow> string \<Rightarrow> logger \<Rightarrow> world \<Rightarrow> rotate_task \<times> logger \<times> world" where
  "rotate_finish dir rename s w =
     (case drain s w of
        (Inl e, s', w') \<Rightarrow> (RotRejected e, s', w')
      | (Inr u, s', w') \<Rightarrow>
          (RotResolved (Some rename), s'\<lparr>rotating := False\<rparr>, emit (FsReaddir dir) w'))"

definition rotate_call :: "host \<Rightarrow> logger \<Rightarrow> world \<Rightarrow> rotate_task \<times> logger \<times> world" where
  "rotate_call h s w =
     (if rotating s then (RotResolved None, s, w)
      else if \<not> filename_set s then (RotResolved None, s, w)
      else if fs_unsupported h then (RotResolved None, s, w)
      else (case close_call h (s\<lparr>rotating := True\<rparr>) w of
              (t, s', w') \<Rightarrow> (RotInClose t, s', w')))"

definition rotate_resume :: "host \<Rightarrow> instant \<Rightarrow> io_result \<Rightarrow> rotate_task \<Rightarrow> logger \<Rightarrow> world \<Rightarrow>
    rotate_task \<times> logger \<times> world" where
  "rotate_resume h now io t s w =
     (case t of
        RotInClose ct \<Rightarrow>
          (case close_resume io ct s of
             (CloseRejected e, s') \<Rightarrow> (RotRejected e, s', w)
           | (CloseAwaitStream, s') \<Rightarrow> (RotInClose CloseAwaitStream, s', w)
           | (CloseResolved, s') \<Rightarrow>
               (case filename s' of
                  None \<Rightarrow> (RotRejected (TypeError ''path''), s', w)
                | Some f \<Rightarrow>
                    (let ext = path_extname h f;
                         base = path_basename h f ext;
                         dir = path_dirname h f;
                         rename = path_join h dir (base @ ''_'' @ dateString now @ ext)
                     in (RotAwaitRename dir base ext rename, s', emit (FsRename f rename) w))))
      | RotAwaitRename dir base ext rename \<Rightarrow>
          (case io of
             IoFail c \<Rightarrow> (RotRejected (IoError c), s, w)
           | IoOk n \<Rightarrow>
               (case open_call h s w of
                  (OpenResolved, s', w') \<Rightarrow> rotate_finish dir rename s' w'
                | (ot, s', w') \<Rightarrow> (RotInOpen ot dir base ext rename, s', w')))
      | RotInOpen ot dir base ext rename \<Rightarrow>
          (case open_resume io ot s w of
             (OpenResolved, s', w') \<Rightarrow> rotate_finish dir rename s' w'
           | (OpenRejected e, s', w') \<Rightarrow> (RotRejected e, s', w')
           | (ot', s', w') \<Rightarrow> (RotInOpen ot' dir base ext rename, s', w'))
      | _ \<Rightarrow> (t, s, w))"

subsection \<open>The write path\<close>

definition truthy_module :: "string option \<Rightarrow> bool" where
  "truthy_module m = (case m of None \<Rightarrow> False | Some x \<Rightarrow> x \<noteq> [])"

definition module_tag :: "string option \<Rightarrow> string" where
  "module_tag m =
     (case m of None \<Rightarrow> [] | Some x \<Rightarrow> if truthy_module m then ''('' @ x @ '') '' else [])"

definition is_object :: "jsval \<Rightarrow> bool" where
  "is_object v = (case v of JObject x \<Rightarrow> True | JError m st \<Rightarrow> True | _ \<Rightarrow> False)"

definition ERROR_LEVEL :: nat where
  "ERROR_LEVEL = 1"

definition WARNING_LEVEL :: nat where
  "WARNING_LEVEL = 2"

text \<open>
  \<open>writeConsole\<close>. Its return value, which no caller reads, is left out: the result
  says only whether it threw.
\<close>

definition writeConsole :: "host \<Rightarrow> instant \<Rightarrow> nat \<Rightarrow> string option \<Rightarrow> jsval list \<Rightarrow> logger \<Rightarrow> world \<Rightarrow>
    (error + unit) \<times> world" where
  "writeConsole h now lvl modname args s w =
     (case at_index levelsByVal lvl of
        None \<Rightarrow> (Inl (AssertionError ''Invalid log level.''), w)
      | Some name \<Rightarrow>
          (let msg0 = (if timestamps s then ''('' @ toJSON now @ '') '' else [])
           in if \<not> console s then (Inr (), w)
              else if \<not> has_stdout h then
                (let msg1 = msg0 @ ''['' @ name @ ''] '' @ module_tag modname
                 in (case args of
                       obj # rest \<Rightarrow>
                         (if is_object obj
                          then (Inr (),
                                emit (if lvl = ERROR_LEVEL then ConsoleError msg1 (Some obj)
                                      else ConsoleLog msg1 (Some obj)) w)
                          else (Inr (),
                                emit (if lvl = ERROR_LEVEL then ConsoleError (msg1 @ fmt h args False) None
                                      else ConsoleLog (msg1 @ fmt h args False) None) w))
                     | [] \<Rightarrow>
                         (Inr (),
                          emit (if lvl = ERROR_LEVEL then ConsoleError (msg1 @ fmt h args False) None
                                else ConsoleLog (msg1 @ fmt h args False) None) w)))
              else
                (case (if colors s
                       then map_option (\<lambda>color. msg0 @ [CHR 0x1B] @ ''['' @ color @ ''m['' @ name @ '']''
                                          @ [CHR 0x1B] @ ''[m '') (at_index styles lvl)
                       else Some (msg0 @ ''['' @ name @ ''] '')) of
                   None \<Rightarrow> (Inl (AssertionError ''Assertion failed.''), w)
                 | Some msg1 \<Rightarrow>
                     (let msg = msg1 @ module_tag modname @ fmt h args (colors s) @ [CHR 0x0A]
                      in (Inr (),
                          emit (if lvl = ERROR_LEVEL then StderrWrite msg else StdoutWrite msg) w)))))"

text \<open>The line \<open>writeStream\<close> builds: level letter, date without milliseconds, module, text.\<close>

definition file_line :: "host \<Rightarrow> instant \<Rightarrow> string \<Rightarrow> string option \<Rightarrow> jsval list \<Rightarrow> string" where
  "file_line h now name modname args =
     ''['' @ name @ '':'' @ (js_slice (toJSON now) 0 (- 5) @ ''Z'') @ ''] '' @
     module_tag modname @ fmt h args False @ [CHR 0x0A]"

text \<open>
  \<open>writeStream\<close> returns nothing; the value here is the promise of the \<open>rotate()\<close> it
  called, if it called one, which the source drops without awaiting it.
\<close>

definition writeStream :: "host \<Rightarrow> instant \<Rightarrow> nat \<Rightarrow> string option \<Rightarrow> jsval list \<Rightarrow> logger \<Rightarrow> world \<Rightarrow>
    (error + rotate_task option) \<times> logger \<times> world" where
  "writeStream h now lvl modname args s w =
     (case at_index prefixByVal lvl of
        None \<Rightarrow> (Inl (AssertionError ''Invalid log level.''), s, w)
      | Some name \<Rightarrow>
          (if stream s = None \<and> \<not> rotating s then (Inr None, s, w)
           else if closing s \<and> \<not> rotating s then (Inr None, s, w)
           else
             (let msg = file_line h now name modname args
              in if rotating s then (Inr None, s\<lparr>buffer := buffer s @ [msg]\<rparr>, w)
                 else
                   (case stream s of
                      None \<Rightarrow> (Inl (TypeError ''write''), s, w)
                    | Some st \<Rightarrow>
                        (let w1 = emit (StreamWrite st msg) w;
                             s1 = s\<lparr>fileSize := fileSize s + length msg\<rparr>
                         in if fileSize s1 \<ge> maxFileSize s1
                            then (case rotate_call h s1 w1 of (t, s2, w2) \<Rightarrow> (Inr (Some t), s2, w2))
                            else (Inr None, s1, w1))))))"

definition logger_log :: "host \<Rightarrow> instant \<Rightarrow> nat \<Rightarrow> string option \<Rightarrow> jsval list \<Rightarrow> logger \<Rightarrow> world \<Rightarrow>
    (error + rotate_task option) \<times> logger \<times> world" where
  "logger_log h now lvl modname args s w =
     (if closed_flag s \<and> \<not> rotating s then (Inr None, s, w)
      else if level s < lvl then (Inr None, s, w)
      else (case writeConsole h now lvl modname args s w of
              (Inl e, w1) \<Rightarrow> (Inl e, s, w1)
            | (Inr b, w1) \<Rightarrow> writeStream h now lvl modname args s w1))"

text \<open>\<open>String(err.message).replace(/^ *Error: */, '')\<close>.\<close>

definition strip_error_prefix :: "string \<Rightarrow> string" where
  "strip_error_prefix m =
     (let t = dropWhile (\<lambda>c. c = CHR '' '') m
      in if take 6 t = ''Error:'' then dropWhile (\<lambda>c. c = CHR '' '') (drop 6 t) else m)"

text \<open>\<open>String(err.stack).split('\n').slice(1).join('\n')\<close>: the stack after its first line.\<close>

definition stack_tail :: "string \<Rightarrow> string" where
  "stack_tail st = drop 1 (dropWhile (\<lambda>c. c \<noteq> CHR 0x0A) st)"

definition logError :: "host \<Rightarrow> instant \<Rightarrow> nat \<Rightarrow> string option \<Rightarrow> string \<Rightarrow> string option \<Rightarrow> logger \<Rightarrow> world \<Rightarrow>
    (error + rotate_task option) \<times> logger \<times> world" where
  "logError h now lvl modname message stack s w =
     (if closed_flag s \<and> \<not> rotating s then (Inr None, s, w)
      else
        (let w1 = (if fs_unsupported h \<and> console s \<and> lvl \<le> WARNING_LEVEL
                   then emit (ConsoleErrorValue (JError message stack)) w else w);
             m0 = strip_error_prefix message;
             m1 = (if lvl \<noteq> ERROR_LEVEL then ''Error: '' @ m0 else m0);
             m2 = (if lvl \<le> WARNING_LEVEL
                   then (case stack of
                           None \<Rightarrow> m1
                         | Some st \<Rightarrow> if st = [] then m1 else m1 @ [CHR 0x0A] @ stack_tail st)
                   else m1)
         in logger_log h now lvl modname [JStr m2] s w1))"

text \<open>
  The five leveled methods, \<open>error\<close> to \<open>spam\<close>, differ in their level only; those of
  \<open>Logger\<close> pass \<open>null\<close> for the module, those of \<open>LoggerContext\<close> their label.
\<close>

definition leveled :: "host \<Rightarrow> instant \<Rightarrow> nat \<Rightarrow> string option \<Rightarrow> jsval list \<Rightarrow> logger \<Rightarrow> world \<Rightarrow>
    (error + rotate_task option) \<times> logger \<times> world" where
  "leveled h now lvl modname args s w =
     (if level s < lvl then (Inr None, s, w)
      else (case args of
              JError message stack # rest \<Rightarrow> logError h now lvl modname message stack s w
            | _ \<Rightarrow> logger_log h now lvl modname args s w))"

definition logger_error :: "host \<Rightarrow> instant \<Rightarrow> jsval list \<Rightarrow> logger \<Rightarrow> world \<Rightarrow>
    (error + rotate_task option) \<times> logger \<times> world" where
  "logger_error h now = leveled h now 1 None"

definition logger_warning :: "host \<Rightarrow> instant \<Rightarrow> jsval list \<Rightarrow> logger \<Rightarrow> world \<Rightarrow>
    (error + rotate_task option) \<times> logger \<times> world" where
  "logger_warning h now = leveled h now 2 None"

definition logger_info :: "host \<Rightarrow> instant \<Rightarrow> jsval list \<Rightarrow> logger \<Rightarrow> world \<Rightarrow>
    (error + rotate_task option) \<times> logger \<times> world" where
  "logger_info h now = leveled h now 3 None"

definition logger_debug :: "host \<Rightarrow> instant \<Rightarrow> jsval list \<Rightarrow> logger \<Rightarrow> world \<Rightarrow>
    (error + rotate_task option) \<times> logger \<times> world" where
  "logger_debug h now = leveled h now 4 None"

definition logger_spam :: "host \<Rightarrow> instant \<Rightarrow> jsval list \<Rightarrow> logger \<Rightarrow> world \<Rightarrow>
    (error + rotate_task option) \<times> logger \<times> world" where
  "logger_spam h now = leveled h now 5 None"

definition context_leveled :: "host \<Rightarrow> instant \<Rightarrow> ctx \<Rightarrow> nat \<Rightarrow> jsval list \<Rightarrow> logger \<Rightarrow> world \<Rightarrow>
    (error + rotate_task option) \<times> logger \<times> world" where
  "context_leveled h now c lvl = leveled h now lvl (Some (ctx_module c))"

subsection \<open>Recovery from a stream error\<close>

definition retry :: "nat \<Rightarrow> logger \<Rightarrow> world \<Rightarrow> logger \<times> world" where
  "retry t s w =
     (if timer s \<noteq> None then (s, w)
      else (s\<lparr>timer := Some (t + 10000)\<rparr>, emit (SetTimeout 10000) w))"

text \<open>
  \<open>this.stream.close()\<close> as \<open>handleError\<close> calls it. On \<open>null\<close> the call itself is a
  \<open>TypeError\<close> and nothing is called; on a stream the call is made, and \<open>close_throws\<close>
  says whether it throws.
\<close>

definition stream_close :: "bool \<Rightarrow> logger \<Rightarrow> world \<Rightarrow> (error + unit) \<times> world" where
  "stream_close close_throws s w =
     (case stream s of
        None \<Rightarrow> (Inl (TypeError ''close''), w)
      | Some st \<Rightarrow>
          (if close_throws then Inl (IoError ''close'') else Inr (), emit (StreamClose st) w))"

text \<open>
  \<open>handleError\<close> at time \<open>t\<close>: the \<open>catch\<close> drops what the close threw, and the
  method goes on as after a close that returned.
\<close>

definition handleError :: "bool \<Rightarrow> nat \<Rightarrow> logger \<Rightarrow> world \<Rightarrow> logger \<times> world" where
  "handleError close_throws t s w =
     (case stream_close close_throws s w of
        (Inl e, w1) \<Rightarrow> retry t (s\<lparr>stream := None\<rparr>) w1
      | (Inr u, w1) \<Rightarrow> retry t (s\<lparr>stream := None\<rparr>) w1)"

definition reopen_call :: "host \<Rightarrow> nat \<Rightarrow> logger \<Rightarrow> world \<Rightarrow> reopen_task \<times> logger \<times> world" where
  "reopen_call h t s w =
     (if stream s \<noteq> None then (ReopenResolved, s, w)
      else if closed_flag s then (ReopenResolved, s, w)
      else if fs_unsupported h then (ReopenResolved, s, w)
      else (case filename s of
              None \<Rightarrow> (case retry t s w of (s', w') \<Rightarrow> (ReopenResolved, s', w'))
            | Some f \<Rightarrow> (ReopenAwaitStream, s, emit (CreateWriteStream f) w)))"

definition reopen_resume :: "nat \<Rightarrow> io_result \<Rightarrow> reopen_task \<Rightarrow> logger \<Rightarrow> world \<Rightarrow> reopen_task \<times> logger \<times> world" where
  "reopen_resume t io rt s w =
     (case rt of
        ReopenResolved \<Rightarrow> (ReopenResolved, s, w)
      | ReopenAwaitStream \<Rightarrow>
          (case io of
             IoOk n \<Rightarrow> (ReopenResolved, s\<lparr>stream := Some (next_id w)\<rparr>, w\<lparr>next_id := Suc (next_id w)\<rparr>)
           | IoFail c \<Rightarrow> (case retry t s w of (s', w') \<Rightarrow> (ReopenResolved, s', w'))))"

text \<open>
  The timeout's callback. The host runs it at a time \<open>t\<close> only when the timer is still
  set and due: \<open>None\<close> says that no callback runs.
\<close>

definition timer_fire :: "host \<Rightarrow> nat \<Rightarrow> logger \<Rightarrow> world \<Rightarrow> (reopen_task \<times> logger \<times> world) option" where
  "timer_fire h t s w =
     (case timer s of
        None \<Rightarrow> None
      | Some due \<Rightarrow> if t < due then None else Some (reopen_call h t (s\<lparr>timer := None\<rparr>) w))"

subsection \<open>Contexts\<close>

definition logger_context :: "string \<Rightarrow> logger \<Rightarrow> world \<Rightarrow> ctx \<times> logger \<times> world" where
  "logger_context modname s w =
     (case contexts s modname of
        Some c \<Rightarrow> (c, s, w)
      | None \<Rightarrow>
          (let c = \<lparr> ctx_ref = next_id w, ctx_module = modname \<rparr>
           in (c, s\<lparr>contexts := (contexts s)(modname \<mapsto> c)\<rparr>, w\<lparr>next_id := Suc (next_id w)\<rparr>)))"

text \<open>\<open>LoggerContext.context\<close>: a new object every time, the logger untouched.\<close>

definition ctx_context :: "ctx \<Rightarrow> string \<Rightarrow> logger \<Rightarrow> world \<Rightarrow> ctx \<times> logger \<times> world" where
  "ctx_context c modname s w =
     (\<lparr> ctx_ref = next_id w, ctx_module = modname \<rparr>, s, w\<lparr>next_id := Suc (next_id w)\<rparr>)"

section \<open>Runs\<close>

text \<open>
  A rotation resumed once per settled operation, in order: the close of the stream, the
  rename, the stat and the opening of the new stream.
\<close>

fun rotate_run :: "host \<Rightarrow> instant \<Rightarrow> io_result list \<Rightarrow> rotate_task \<times> logger \<times> world \<Rightarrow>
    rotate_task \<times> logger \<times> world" where
  "rotate_run h now [] r = r"
| "rotate_run h now (io # ios) (t, s, w) = rotate_run h now ios (rotate_resume h now io t s w)"

definition settled :: "rotate_task \<Rightarrow> bool" where
  "settled t = (case t of RotResolved r \<Rightarrow> True | RotRejected e \<Rightarrow> True | _ \<Rightarrow> False)"

text \<open>One call of \<open>writeStream\<close>: the instant, the level, the module and the arguments.\<close>

type_synonym write_call = "instant \<times> nat \<times> string option \<times> jsval list"

text \<open>Calls of \<open>writeStream\<close> one after the other; an exception goes to its caller only.\<close>

fun write_all :: "host \<Rightarrow> write_call list \<Rightarrow> logger \<Rightarrow> world \<Rightarrow> logger \<times> world" where
  "write_all h [] s w = (s, w)"
| "write_all h ((now, lvl, modname, args) # cs) s w =
     (case writeStream h now lvl modname args s w of (r, s', w') \<Rightarrow> write_all h cs s' w')"

definition line_of :: "host \<Rightarrow> write_call \<Rightarrow> string" where
  "line_of h c = (case c of (now, lvl, modname, args) \<Rightarrow>
     file_line h now (case at_index prefixByVal lvl of Some name \<Rightarrow> name | None \<Rightarrow> []) modname args)"

definition valid_call :: "write_call \<Rightarrow> bool" where
  "valid_call c = (case c of (now, lvl, modname, args) \<Rightarrow> lvl < length prefixByVal)"

text \<open>
  A rotation with calls of \<open>writeStream\<close> between its steps: after \<open>rotate()\<close> is called,
  and after the close, the rename and the stat have settled.
\<close>

definition rotation_with_writes :: "host \<Rightarrow> instant \<Rightarrow> nat \<Rightarrow>
    write_call list \<Rightarrow> write_call list \<Rightarrow> write_call list \<Rightarrow> write_call list \<Rightarrow>
    logger \<Rightarrow> world \<Rightarrow> rotate_task \<times> logger \<times> world" where
  "rotation_with_writes h now sz cs1 cs2 cs3 cs4 s w =
     (case rotate_call h s w of (t1, s1, w1) \<Rightarrow>
      case write_all h cs1 s1 w1 of (s1', w1') \<Rightarrow>
      case rotate_resume h now (IoOk 0) t1 s1' w1' of (t2, s2, w2) \<Rightarrow>
      case write_all h cs2 s2 w2 of (s2', w2') \<Rightarrow>
      case rotate_resume h now (IoOk 0) t2 s2' w2' of (t3, s3, w3) \<Rightarrow>
      case write_all h cs3 s3 w3 of (s3', w3') \<Rightarrow>
      case rotate_resume h now (IoOk sz) t3 s3' w3' of (t4, s4, w4) \<Rightarrow>
      case write_all h cs4 s4 w4 of (s4', w4') \<Rightarrow>
      rotate_resume h now (IoOk 0) t4 s4' w4')"

text \<open>\<open>close()\<close> from its call to its end, the stream's close settling as \<open>io\<close>.\<close>

definition close_run :: "host \<Rightarrow> io_result \<Rightarrow> logger \<Rightarrow> world \<Rightarrow> close_task \<times> logger \<times> world" where
  "close_run h io s w =
     (case close_call h s w of (t, s1, w1) \<Rightarrow>
      case close_resume io t s1 of (t', s2) \<Rightarrow> (t', s2, w1))"

subsection \<open>A concrete host and logger\<close>

text \<open>
  A host for \<open>/var/log/debug.log\<close>: the formatter joins its string arguments, and the
  functions of \<open>path\<close> are fixed at what Node returns for this file.
\<close>

definition demo_fmt :: "jsval list \<Rightarrow> bool \<Rightarrow> string" where
  "demo_fmt args c = concat (map (\<lambda>v. case v of JStr x \<Rightarrow> x | _ \<Rightarrow> []) args)"

definition demo_host :: host where
  "demo_host =
     \<lparr> fs_unsupported = False, has_tty = False, has_stdout = True, fmt = demo_fmt,
       path_extname = (\<lambda>f. ''.log''), path_basename = (\<lambda>f e. ''debug''),
       path_dirname = (\<lambda>f. ''/var/log''), path_join = (\<lambda>d f. d @ ''/'' @ f) \<rparr>"

definition demo_now :: instant where
  "demo_now = \<lparr> year = 2019, month = 10, day = 28, hour = 19, minute = 1, second = 15,
     millisecond = 122 \<rparr>"

definition demo_world :: world where
  "demo_world = \<lparr> trace = [], next_id = 1 \<rparr>"

text \<open>An open logger writing to stream 0, at level \<open>spam\<close>, that rotates at 100.\<close>

definition demo_logger :: logger where
  "demo_logger =
     (init_logger demo_host)\<lparr> level := 5, filename := Some ''/var/log/debug.log'',
       stream := Some 0, closed_flag := False, maxFileSize := 100, maxFiles := 2 \<rparr>"

text \<open>The same logger after a stream error at time 5000: no stream, a retry due at 15000.\<close>

definition demo_broken :: logger where
  "demo_broken = demo_logger\<lparr>stream := None, timer := Some 15000\<rparr>"

text \<open>
  The calls made up to that stream error, and up to the opening that \<open>reopen\<close> starts
  when the timer fires.
\<close>

definition demo_broken_world :: world where
  "demo_broken_world = \<lparr> trace = [StreamClose 0, SetTimeout 10000], next_id = 1 \<rparr>"

definition demo_reopen_world :: world where
  "demo_reopen_world =
     \<lparr> trace = [StreamClose 0, SetTimeout 10000, CreateWriteStream ''/var/log/debug.log''],
       next_id = 1 \<rparr>"

text \<open>
  The broken logger after its timer has fired and \<open>close()\<close> has then completed.
\<close>

definition demo_closed :: logger where
  "demo_closed = demo_broken\<lparr>timer := None, closed_flag := True\<rparr>"

text \<open>
  The logger, made to rotate at 31, after a log call has started a rotation whose rename
  was then rejected: the rotation has closed it, and \<open>rotating\<close> is still set. With
  it, the calls made until then.
\<close>

definition demo_stuck :: logger where
  "demo_stuck = demo_logger\<lparr>maxFileSize := 31, stream := None, closed_flag := True, rotating := True\<rparr>"

definition demo_stuck_world :: world where
  "demo_stuck_world =
     \<lparr> trace = [StdoutWrite (''(2019-10-28T19:01:15.122Z) [info] hello'' @ [CHR 0x0A]),
                StreamWrite 0 (''[I:2019-10-28T19:01:15Z] hello'' @ [CHR 0x0A]),
                StreamClose 0,
                FsRename ''/var/log/debug.log'' ''/var/log/debug_2019-10-28_19-01-15-122.log''],
       next_id = 1 \<rparr>"

section \<open>Facts\<close>

subsection \<open>The write path and the rotation\<close>

lemma writeStream_rotating:
  "rotating s \<Longrightarrow> lvl < length prefixByVal \<Longrightarrow>
   writeStream h now lvl m args s w =
     (Inr None, s\<lparr>buffer := buffer s @ [line_of h (now, lvl, m, args)]\<rparr>, w)"
  by (simp add: writeStream_def at_index_def line_of_def)

lemma write_all_rotating:
  "rotating s \<Longrightarrow> list_all valid_call cs \<Longrightarrow>
   write_all h cs s w = (s\<lparr>buffer := buffer s @ map (line_of h) cs\<rparr>, w)"
proof (induction cs arbitrary: s)
  case Nil
  then show ?case by simp
next
  case (Cons c cs)
  obtain now lvl m args where c: "c = (now, lvl, m, args)" by (cases c) auto
  from Cons.prems have vc: "valid_call c" and rest: "list_all valid_call cs"
    by simp_all
  from vc have v: "lvl < length prefixByVal" by (simp add: c valid_call_def)
  show ?case
    using Cons.IH [of "s\<lparr>buffer := buffer s @ [line_of h c]\<rparr>"] Cons.prems(1) rest
    by (simp add: c writeStream_rotating [OF Cons.prems(1) v])
qed

lemma drain_from_stream:
  "stream s = Some st \<Longrightarrow>
   drain_from ms s w =
     (Inr (),
      s\<lparr>buffer := (if ms = [] then buffer s else []),
        fileSize := fileSize s + sum_list (map length ms)\<rparr>,
      w\<lparr>trace := trace w @ map (StreamWrite st) ms\<rparr>)"
proof (induction ms arbitrary: s w)
  case Nil
  then show ?case by simp
next
  case (Cons m ms)
  show ?case
    using Cons.prems
      Cons.IH [of "s\<lparr>buffer := ms, fileSize := fileSize s + length m\<rparr>" "emit (StreamWrite st m) w"]
    by (simp add: emit_def add.assoc)
qed

lemma drain_stream:
  "stream s = Some st \<Longrightarrow>
   drain s w =
     (Inr (), s\<lparr>buffer := [], fileSize := fileSize s + sum_list (map length (buffer s))\<rparr>,
      w\<lparr>trace := trace w @ map (StreamWrite st) (buffer s)\<rparr>)"
  by (cases "buffer s = []") (simp_all add: drain_def drain_from_stream)

lemma written_to_append:
  "written_to st (w\<lparr>trace := trace w @ es\<rparr>) = written_to st w @ written_to st (w\<lparr>trace := es\<rparr>)"
  by (simp add: written_to_def)

lemma written_to_writes:
  "written_to st (w\<lparr>trace := map (StreamWrite st') ms\<rparr>) = (if st' = st then ms else [])"
  by (induction ms) (simp_all add: written_to_def)

lemma rotation_with_writes_result:
  assumes "\<not> rotating s" "filename s = Some f" "f \<noteq> []" "\<not> fs_unsupported h"
    and "stream s = Some st0"
    and "list_all valid_call cs1" "list_all valid_call cs2"
    and "list_all valid_call cs3" "list_all valid_call cs4"
  shows "rotation_with_writes h now sz cs1 cs2 cs3 cs4 s w =
     (RotResolved (Some (archive_path h f now)),
      s\<lparr>timer := None, closing := False, closed_flag := False, stream := Some (next_id w),
        rotating := False, buffer := [],
        fileSize := sz + sum_list (map length (buffer s @ map (line_of h) (cs1 @ cs2 @ cs3 @ cs4)))\<rparr>,
      w\<lparr>trace := trace w @ (if timer s \<noteq> None then [ClearTimeout] else []) @
           [StreamClose st0, FsRename f (archive_path h f now), FsStat f, CreateWriteStream f] @
           map (StreamWrite (next_id w)) (buffer s @ map (line_of h) (cs1 @ cs2 @ cs3 @ cs4)) @
           [FsReaddir (path_dirname h f)],
         next_id := Suc (next_id w)\<rparr>)"
  using assms
  by (simp add: rotation_with_writes_def rotate_call_def close_call_def filename_set_def
      write_all_rotating rotate_resume_def close_resume_def open_call_def open_resume_def
      rotate_finish_def drain_stream emit_def archive_path_def archive_entry_def Let_def)

lemma rotate_call_starts:
  assumes "\<not> rotating s" "filename_set s" "\<not> fs_unsupported h"
  shows "\<exists>ct s' w'. rotate_call h s w = (RotInClose ct, s', w') \<and> rotating s'"
  using assms
  by (auto simp: rotate_call_def close_call_def Let_def split: option.splits)

lemma rotate_resume_rotating:
  assumes "rotating s" "rotate_resume h now io t s w = (t', s', w')" "\<not> settled t'"
  shows "rotating s'"
  using assms
  by (auto simp: rotate_resume_def close_resume_def open_call_def open_resume_def rotate_finish_def
      settled_def Let_def
      split: rotate_task.splits close_task.splits open_task.splits io_result.splits option.splits
        prod.splits sum.splits if_splits)

lemma rotate_run_settled:
  "settled t \<Longrightarrow> rotate_run h now ios (t, s, w) = (t, s, w)"
  by (induction ios) (auto simp: rotate_resume_def settled_def split: rotate_task.splits)

lemma rotate_run_rotating:
  "rotating s \<Longrightarrow> rotate_run h now ios (t, s, w) = (t', s', w') \<Longrightarrow> \<not> settled t' \<Longrightarrow> rotating s'"
proof (induction ios arbitrary: t s w)
  case Nil
  then show ?case by simp
next
  case (Cons io ios)
  obtain t1 s1 w1 where r: "rotate_resume h now io t s w = (t1, s1, w1)"
    by (cases "rotate_resume h now io t s w") auto
  show ?case
  proof (cases "settled t1")
    case True
    with Cons.prems r show ?thesis by (simp add: rotate_run_settled)
  next
    case False
    from rotate_resume_rotating [OF Cons.prems(1) r False] have "rotating s1" .
    from Cons.IH [OF this _ Cons.prems(3)] Cons.prems(2) r show ?thesis by simp
  qed
qed

lemma rotate_run_success:
  assumes "\<not> rotating s" "filename s = Some f" "f \<noteq> []" "\<not> fs_unsupported h"
    and "io = IoOk n \<or> io = IoFail ''ENOENT''"
  shows "\<exists>s' w'. rotate_run h now [IoOk a, IoOk b, io, IoOk d] (rotate_call h s w) =
           (RotResolved (Some (archive_path h f now)), s', w') \<and> \<not> rotating s'"
  using assms
  by (cases "stream s")
     (auto simp: rotate_call_def close_call_def filename_set_def
      rotate_resume_def close_resume_def open_call_def open_resume_def
      rotate_finish_def drain_stream emit_def archive_path_def archive_entry_def Let_def)

lemma written_to_no_writes:
  "\<forall>e \<in> set es. \<forall>h' m'. e \<noteq> StreamWrite h' m' \<Longrightarrow> written_to x (w\<lparr>trace := es\<rparr>) = []"
  by (induction es) (auto simp: written_to_def split: effect.splits)

lemma written_to_between:
  assumes "\<forall>e \<in> set (pre @ post). \<forall>h' m'. e \<noteq> StreamWrite h' m'"
  shows "written_to x (w\<lparr>trace := pre @ map (StreamWrite y) ms @ post\<rparr>) = (if y = x then ms else [])"
proof -
  have "written_to x (w\<lparr>trace := pre @ map (StreamWrite y) ms @ post\<rparr>) =
      written_to x (w\<lparr>trace := pre\<rparr>) @ written_to x (w\<lparr>trace := map (StreamWrite y) ms\<rparr>) @
      written_to x (w\<lparr>trace := post\<rparr>)"
    by (simp add: written_to_def)
  also have "\<dots> = (if y = x then ms else [])"
    using assms by (simp add: written_to_no_writes written_to_writes)
  finally show ?thesis .
qed

subsection \<open>Lengths of lines\<close>

lemma length_pad: "length (pad k n) = k"
  by (induction k arbitrary: n) simp_all

lemma length_toJSON: "0 \<le> year t \<Longrightarrow> year t \<le> 9999 \<Longrightarrow> length (toJSON t) = 24"
  by (simp add: toJSON_def year_string_def length_pad)

lemma length_file_line:
  "0 \<le> year now \<Longrightarrow> year now \<le> 9999 \<Longrightarrow>
   length (file_line h now name m args) =
     length name + 25 + length (module_tag m) + length (fmt h args False)"
  by (simp add: file_line_def js_slice_def length_toJSON)

subsection \<open>Log calls that return\<close>

lemma at_index_Some: "i < length xs \<Longrightarrow> at_index xs i = Some (xs ! i)"
  by (simp add: at_index_def)

lemma level_tables_length:
  "length levelsByVal = 6" "length prefixByVal = 6" "length styles = 6"
  by (simp_all add: levelsByVal_def prefixByVal_def styles_def)

lemma writeConsole_returns:
  "lvl < 6 \<Longrightarrow> \<exists>b w'. writeConsole h now lvl m args s w = (Inr b, w')"
  by (cases args) (auto simp: writeConsole_def at_index_Some level_tables_length Let_def)

lemma writeStream_returns:
  "lvl < 6 \<Longrightarrow> stream s = None \<or> rotating s \<Longrightarrow>
   \<exists>r s' w'. writeStream h now lvl m args s w = (Inr r, s', w')"
  by (auto simp: writeStream_def at_index_Some level_tables_length Let_def)

lemma log_returns:
  assumes "lvl < 6" "stream s = None \<or> rotating s"
  shows "\<exists>r. fst (logger_log h now lvl m args s w) = Inr r"
proof -
  obtain b w1 where c: "writeConsole h now lvl m args s w = (Inr b, w1)"
    using writeConsole_returns [OF assms(1)] by blast
  obtain r s' w' where d: "writeStream h now lvl m args s w1 = (Inr r, s', w')"
    using writeStream_returns [OF assms] by blast
  show ?thesis
    by (simp add: logger_log_def c d)
qed

lemma close_run_closed:
  "close_run h io s w = (CloseResolved, s1, w1) \<Longrightarrow> closed_flag s1"
  by (auto simp: close_run_def close_call_def close_resume_def Let_def
      split: prod.splits option.splits if_splits io_result.splits close_task.splits)

lemma leveled_closed:
  "closed_flag s \<Longrightarrow> \<not> rotating s \<Longrightarrow> leveled h now lvl m args s w = (Inr None, s, w)"
  by (simp add: leveled_def logger_log_def logError_def split: list.splits jsval.splits)

subsection \<open>Options\<close>





lemma toUpperCase_debug: "toUpperCase (units ''debug'') = units ''DEBUG''"
  by (simp add: toUpperCase_def upper_unit_def units_def)












subsection \<open>What \<open>prune\<close> selects\<close>

lemma prune_selection_zero: "prune_selection 0 oldFiles = []"
  by (simp add: prune_selection_def js_slice_def)

lemma prune_selection_positive:
  "0 < mf \<Longrightarrow> prune_selection mf oldFiles = take (length oldFiles - mf) (sort oldFiles)"
  by (auto simp: prune_selection_def js_slice_def Let_def max_def nat_diff_distrib')

lemma prune_positive_retains:
  assumes "0 < mf" "distinct oldFiles"
  shows "set oldFiles - set (prune_selection mf oldFiles) = set (drop (length oldFiles - mf) (sort oldFiles))"
    and "length (drop (length oldFiles - mf) (sort oldFiles)) = min (length oldFiles) mf"
    and "\<forall>a \<in> set (prune_selection mf oldFiles). \<forall>b \<in> set (drop (length oldFiles - mf) (sort oldFiles)). a < b"
proof -
  let ?n = "length oldFiles - mf"
  have d: "distinct (sort oldFiles)" using assms(2) by simp
  have split: "sort oldFiles = take ?n (sort oldFiles) @ drop ?n (sort oldFiles)" by simp
  have disj: "set (take ?n (sort oldFiles)) \<inter> set (drop ?n (sort oldFiles)) = {}"
    using d by (metis distinct_append split)
  have un: "set oldFiles = set (take ?n (sort oldFiles)) \<union> set (drop ?n (sort oldFiles))"
    by (metis set_append set_sort split)
  show "set oldFiles - set (prune_selection mf oldFiles) = set (drop ?n (sort oldFiles))"
    using disj un by (auto simp: prune_selection_positive [OF assms(1)])
  show "length (drop ?n (sort oldFiles)) = min (length oldFiles) mf"
    by auto
  have s: "sorted (take ?n (sort oldFiles) @ drop ?n (sort oldFiles))"
    by simp
  show "\<forall>a \<in> set (prune_selection mf oldFiles). \<forall>b \<in> set (drop ?n (sort oldFiles)). a < b"
  proof (intro ballI)
    fix a b
    assume a: "a \<in> set (prune_selection mf oldFiles)" and b: "b \<in> set (drop ?n (sort oldFiles))"
    from a have a': "a \<in> set (take ?n (sort oldFiles))"
      by (simp add: prune_selection_positive [OF assms(1)])
    from s a' b have "a \<le> b" by (simp add: sorted_append del: append_take_drop_id)
    moreover from disj a' b have "a \<noteq> b" by auto
    ultimately show "a < b" by simp
  qed
qed

subsection \<open>The order of time stamps\<close>

lemma of_char_digit: "d < 10 \<Longrightarrow> of_char (digit d) = 48 + d"
  by (simp add: digit_def)

lemma digit_less: "d < 10 \<Longrightarrow> e < 10 \<Longrightarrow> digit d < digit e \<longleftrightarrow> d < e"
  by (simp add: less_char_def of_char_digit)

lemma digit_eq: "d < 10 \<Longrightarrow> e < 10 \<Longrightarrow> digit d = digit e \<longleftrightarrow> d = e"
  by (metis of_char_digit add_left_cancel)

lemma append_less_eqlen:
  "length u = length u' \<Longrightarrow> u @ v < u' @ v' \<longleftrightarrow> u < u' \<or> (u = u' \<and> v < v')"
  by (induction u u' rule: list_induct2) auto

lemma div10_bound: "(n::nat) < 10 ^ Suc k \<Longrightarrow> n div 10 < 10 ^ k"
  by (simp add: less_mult_imp_div_less)

lemma digits_less:
  "(n::nat) div 10 < m div 10 \<or> (n div 10 = m div 10 \<and> n mod 10 < m mod 10) \<longleftrightarrow> n < m"
proof -
  define a b c d where "a = n div 10" and "b = n mod 10" and "c = m div 10" and "d = m mod 10"
  have n: "n = 10 * a + b" and m: "m = 10 * c + d"
    by (simp_all add: a_def b_def c_def d_def)
  have bd: "b < 10" "d < 10"
    by (simp_all add: b_def d_def)
  have "a < c \<or> (a = c \<and> b < d) \<longleftrightarrow> 10 * a + b < 10 * c + d"
    using bd by linarith
  then show ?thesis
    unfolding a_def [symmetric] b_def [symmetric] c_def [symmetric] d_def [symmetric]
    using n m by simp
qed

lemma digits_eq: "(n::nat) div 10 = m div 10 \<and> n mod 10 = m mod 10 \<longleftrightarrow> n = m"
proof
  assume "n div 10 = m div 10 \<and> n mod 10 = m mod 10"
  then have "10 * (n div 10) + n mod 10 = 10 * (m div 10) + m mod 10" by simp
  then show "n = m" by simp
next
  assume "n = m"
  then show "n div 10 = m div 10 \<and> n mod 10 = m mod 10" by simp
qed

lemma pad_eq: "n < 10 ^ k \<Longrightarrow> m < 10 ^ k \<Longrightarrow> pad k n = pad k m \<longleftrightarrow> n = m"
proof (induction k arbitrary: n m)
  case 0
  then show ?case by simp
next
  case (Suc k)
  have ih: "pad k (n div 10) = pad k (m div 10) \<longleftrightarrow> n div 10 = m div 10"
    by (rule Suc.IH) (rule div10_bound, rule Suc.prems)+
  have d: "digit (n mod 10) = digit (m mod 10) \<longleftrightarrow> n mod 10 = m mod 10"
    by (rule digit_eq) simp_all
  have "pad (Suc k) n = pad (Suc k) m \<longleftrightarrow>
      pad k (n div 10) = pad k (m div 10) \<and> digit (n mod 10) = digit (m mod 10)"
    by simp
  also have "\<dots> \<longleftrightarrow> n div 10 = m div 10 \<and> n mod 10 = m mod 10"
    unfolding ih d ..
  also have "\<dots> \<longleftrightarrow> n = m"
    by (rule digits_eq)
  finally show ?case .
qed

lemma pad_less: "n < 10 ^ k \<Longrightarrow> m < 10 ^ k \<Longrightarrow> pad k n < pad k m \<longleftrightarrow> n < m"
proof (induction k arbitrary: n m)
  case 0
  then show ?case by simp
next
  case (Suc k)
  have b: "n div 10 < 10 ^ k" "m div 10 < 10 ^ k"
    by (rule div10_bound, rule Suc.prems)+
  have ih: "pad k (n div 10) < pad k (m div 10) \<longleftrightarrow> n div 10 < m div 10"
    by (rule Suc.IH [OF b])
  have e: "pad k (n div 10) = pad k (m div 10) \<longleftrightarrow> n div 10 = m div 10"
    by (rule pad_eq [OF b])
  have d: "digit (n mod 10) < digit (m mod 10) \<longleftrightarrow> n mod 10 < m mod 10"
    by (rule digit_less) simp_all
  have "pad (Suc k) n < pad (Suc k) m \<longleftrightarrow>
      pad k (n div 10) < pad k (m div 10) \<or>
      (pad k (n div 10) = pad k (m div 10) \<and> [digit (n mod 10)] < [digit (m mod 10)])"
    unfolding pad.simps by (rule append_less_eqlen) (simp add: length_pad)
  also have "\<dots> \<longleftrightarrow> n div 10 < m div 10 \<or> (n div 10 = m div 10 \<and> n mod 10 < m mod 10)"
    unfolding ih e using d by simp
  also have "\<dots> \<longleftrightarrow> n < m"
    by (rule digits_less)
  finally show ?case .
qed

lemma not_in_pad: "of_char c \<notin> {48..57::nat} \<Longrightarrow> c \<notin> set (pad k n)"
proof (induction k arbitrary: n)
  case 0
  then show ?case by simp
next
  case (Suc k)
  have "of_char (digit (n mod 10)) = 48 + n mod 10"
    by (rule of_char_digit) simp
  then have "of_char (digit (n mod 10)) \<in> {48..57::nat}"
    by simp
  with Suc show ?case by auto
qed

lemma not_in_year_string:
  "of_char c \<notin> {48..57::nat} \<Longrightarrow> c \<noteq> CHR ''-'' \<Longrightarrow> c \<noteq> CHR ''+'' \<Longrightarrow> c \<notin> set (year_string y)"
  by (simp add: year_string_def not_in_pad)

lemma replace_all_append: "replace_all c d (xs @ ys) = replace_all c d xs @ replace_all c d ys"
  by (simp add: replace_all_def)

lemma replace_all_notin: "c \<notin> set xs \<Longrightarrow> replace_all c d xs = xs"
  by (induction xs) (auto simp: replace_all_def)

lemma replace_first_notin: "c \<notin> set xs \<Longrightarrow> replace_first c d (xs @ ys) = xs @ replace_first c d ys"
  by (induction xs) auto

lemma js_slice_drop_last: "js_slice (xs @ [z]) 0 (- 1) = xs"
  by (simp add: js_slice_def)

lemma dateString_eq:
  "dateString t =
     year_string (year t) @ ''-'' @ pad 2 (month t) @ ''-'' @ pad 2 (day t) @ ''_'' @
     pad 2 (hour t) @ ''-'' @ pad 2 (minute t) @ ''-'' @ pad 2 (second t) @ ''-'' @
     pad 3 (millisecond t)"
proof -
  have a: "replace_all (CHR '':'') (CHR ''-'') (toJSON t) =
      year_string (year t) @ ''-'' @ pad 2 (month t) @ ''-'' @ pad 2 (day t) @ ''T'' @
      pad 2 (hour t) @ ''-'' @ pad 2 (minute t) @ ''-'' @ pad 2 (second t) @ ''.'' @
      pad 3 (millisecond t) @ ''Z''"
    unfolding toJSON_def replace_all_append
    by (simp add: replace_all_notin not_in_pad not_in_year_string)
       (simp add: replace_all_def)
  have b: "replace_first (CHR ''T'') (CHR ''_'') (replace_all (CHR '':'') (CHR ''-'') (toJSON t)) =
      year_string (year t) @ ''-'' @ pad 2 (month t) @ ''-'' @ pad 2 (day t) @ ''_'' @
      pad 2 (hour t) @ ''-'' @ pad 2 (minute t) @ ''-'' @ pad 2 (second t) @ ''.'' @
      pad 3 (millisecond t) @ ''Z''"
    unfolding a
    by (simp add: replace_first_notin not_in_pad not_in_year_string)
  have c: "replace_first (CHR ''.'') (CHR ''-'')
      (replace_first (CHR ''T'') (CHR ''_'') (replace_all (CHR '':'') (CHR ''-'') (toJSON t))) =
      (year_string (year t) @ ''-'' @ pad 2 (month t) @ ''-'' @ pad 2 (day t) @ ''_'' @
      pad 2 (hour t) @ ''-'' @ pad 2 (minute t) @ ''-'' @ pad 2 (second t) @ ''-'' @
      pad 3 (millisecond t)) @ ''Z''"
    unfolding b
    by (simp add: replace_first_notin not_in_pad not_in_year_string)
  show ?thesis
    unfolding dateString_def c by (rule js_slice_drop_last)
qed

lemma dateString_safe: "CHR '':'' \<notin> set (dateString t) \<and> CHR ''.'' \<notin> set (dateString t)"
  by (simp add: dateString_eq not_in_pad not_in_year_string)

lemma append_le_eqlen:
  "length u = length u' \<Longrightarrow> u @ v \<le> u' @ v' \<longleftrightarrow> u < u' \<or> (u = u' \<and> v \<le> v')"
  by (induction u u' rule: list_induct2) auto

lemma append_le_same: "p @ x \<le> p @ y \<longleftrightarrow> x \<le> (y :: 'a :: linorder list)"
  by (simp add: append_le_eqlen)

lemma stamp_order:
  assumes "valid_instant a" "valid_instant b" "four_digit_year a" "four_digit_year b"
  shows "dateString a @ ext \<le> dateString b @ ext \<longleftrightarrow> instant_key a \<le> instant_key b"
proof -
  have ya: "nat (year a) < 10 ^ 4" and yb: "nat (year b) < 10 ^ 4"
    using assms(3,4) by (auto simp: four_digit_year_def)
  have ba: "month a < 10 ^ 2" "day a < 10 ^ 2" "hour a < 10 ^ 2" "minute a < 10 ^ 2"
    "second a < 10 ^ 2" "millisecond a < 10 ^ 3"
    using assms(1) by (simp_all add: valid_instant_def)
  have bb: "month b < 10 ^ 2" "day b < 10 ^ 2" "hour b < 10 ^ 2" "minute b < 10 ^ 2"
    "second b < 10 ^ 2" "millisecond b < 10 ^ 3"
    using assms(2) by (simp_all add: valid_instant_def)
  have y: "year_string (year a) = pad 4 (nat (year a))" "year_string (year b) = pad 4 (nat (year b))"
    using assms(3,4) by (simp_all add: year_string_def four_digit_year_def)
  have yo: "nat (year a) < nat (year b) \<longleftrightarrow> year a < year b"
    "nat (year a) = nat (year b) \<longleftrightarrow> year a = year b"
    using assms(3,4) by (auto simp: four_digit_year_def)
  have z: "0 < year b \<and> year a < year b \<longleftrightarrow> year a < year b"
    using assms(3) by (auto simp: four_digit_year_def)
  note cmp = pad_less [OF ya yb] pad_eq [OF ya yb]
    pad_less [OF ba(1) bb(1)] pad_eq [OF ba(1) bb(1)]
    pad_less [OF ba(2) bb(2)] pad_eq [OF ba(2) bb(2)]
    pad_less [OF ba(3) bb(3)] pad_eq [OF ba(3) bb(3)]
    pad_less [OF ba(4) bb(4)] pad_eq [OF ba(4) bb(4)]
    pad_less [OF ba(5) bb(5)] pad_eq [OF ba(5) bb(5)]
    pad_less [OF ba(6) bb(6)] pad_eq [OF ba(6) bb(6)]
  show ?thesis
    unfolding dateString_eq y instant_key_def
    by (simp add: append_le_eqlen length_pad cmp yo z del: pad.simps)
qed

subsection \<open>Time stamps of concrete instants\<close>

lemma digit_values:
  "digit 0 = CHR ''0''" "digit (Suc 0) = CHR ''1''" "digit 2 = CHR ''2''" "digit 3 = CHR ''3''"
  "digit 4 = CHR ''4''" "digit 5 = CHR ''5''" "digit 6 = CHR ''6''" "digit 7 = CHR ''7''"
  "digit 8 = CHR ''8''" "digit 9 = CHR ''9''"
  by (simp_all add: digit_def char_of_def bit_Suc_0_iff)

lemma pad_2: "pad 2 n = [digit (n div 10 mod 10), digit (n mod 10)]"
proof -
  have e: "(2::nat) = Suc (Suc 0)" by simp
  show ?thesis unfolding e by simp
qed

lemma pad_3: "pad 3 n = [digit (n div 10 div 10 mod 10), digit (n div 10 mod 10), digit (n mod 10)]"
proof -
  have e: "(3::nat) = Suc (Suc (Suc 0))" by simp
  show ?thesis unfolding e by simp
qed

lemma pad_4: "pad 4 n = [digit (n div 10 div 10 div 10 mod 10), digit (n div 10 div 10 mod 10),
     digit (n div 10 mod 10), digit (n mod 10)]"
proof -
  have e: "(4::nat) = Suc (Suc (Suc (Suc 0)))" by simp
  show ?thesis unfolding e by simp
qed

lemma pad_6: "pad 6 n = [digit (n div 10 div 10 div 10 div 10 div 10 mod 10),
     digit (n div 10 div 10 div 10 div 10 mod 10), digit (n div 10 div 10 div 10 mod 10),
     digit (n div 10 div 10 mod 10), digit (n div 10 mod 10), digit (n mod 10)]"
proof -
  have e: "(6::nat) = Suc (Suc (Suc (Suc (Suc (Suc 0)))))" by simp
  show ?thesis unfolding e by simp
qed

lemmas pad_unroll = pad_2 pad_3 pad_4 pad_6

lemma dateString_year_10000:
  "dateString (demo_now\<lparr>year := 10000\<rparr>) = ''+010000-10-28_19-01-15-122''"
  by (simp add: dateString_eq year_string_def pad_unroll demo_now_def digit_values del: pad.simps)

lemma dateString_year_9999:
  "dateString (demo_now\<lparr>year := 9999\<rparr>) = ''9999-10-28_19-01-15-122''"
  by (simp add: dateString_eq year_string_def pad_unroll demo_now_def digit_values del: pad.simps)

subsection \<open>Patterns of plain names\<close>

text \<open>
  Where the base name and the extension hold no character of regular-expression syntax
  but the dot, the pattern of \<open>prune\<close> needs one character more than the active file's
  name has: the active file is not among the candidates.
\<close>

lemma re_parse_plain:
  "\<forall>c \<in> set src. plain_char c \<Longrightarrow>
   re_parse st acc src = Regexp (rev acc @ map (\<lambda>c. (atom_of c, Once)) src)"
  by (induction src arbitrary: st acc) (auto simp: plain_char_def)

lemma re_parse_plain_prefix:
  "\<forall>c \<in> set src. plain_char c \<Longrightarrow>
   re_parse st acc (src @ rest) =
     re_parse (if src = [] then st else AfterAtom) (rev (map (\<lambda>c. (atom_of c, Once)) src) @ acc) rest"
  by (induction src arbitrary: st acc) (auto simp: plain_char_def)

lemma prune_pattern_plain:
  assumes "\<forall>c \<in> set base. plain_char c" "\<forall>c \<in> set ext. plain_char c"
  shows "new_RegExp (base @ ''_.*'' @ ext) =
     Regexp (map (\<lambda>c. (atom_of c, Once)) base @ [(Lit (CHR ''_''), Once), (Dot, ZeroOrMore)] @
       map (\<lambda>c. (atom_of c, Once)) ext)"
  unfolding new_RegExp_def re_parse_plain_prefix [OF assms(1)]
  by (simp add: quant_of_def outside_fragment_def atom_of_def re_parse_plain [OF assms(2)])

lemma match_here_min_len: "match_here p s \<Longrightarrow> min_len p \<le> length s"
  by (induction p s rule: match_here.induct) (auto simp: min_len_def)

lemma re_test_min_len: "re_test p s \<Longrightarrow> min_len p \<le> length s"
  by (induction s) (auto dest: match_here_min_len)

lemma active_file_not_candidate:
  assumes "\<forall>c \<in> set base. plain_char c" "\<forall>c \<in> set ext. plain_char c"
  shows "\<exists>cands. prune_candidates base ext files = Some (Inr cands) \<and> base @ ext \<notin> set cands"
proof -
  define p where "p = map (\<lambda>c. (atom_of c, Once)) base @ [(Lit (CHR ''_''), Once), (Dot, ZeroOrMore)] @
       map (\<lambda>c. (atom_of c, Once)) ext"
  have m: "min_len p = length base + 1 + length ext"
    by (simp add: p_def min_len_def filter_map comp_def)
  have r: "new_RegExp (base @ ''_.*'' @ ext) = Regexp p"
    unfolding p_def by (rule prune_pattern_plain [OF assms])
  have "\<not> re_test p (base @ ext)"
    using re_test_min_len [of p "base @ ext"] m by auto
  then show ?thesis
    unfolding prune_candidates_def r by simp
qed


subsection \<open>Lines of the concrete host\<close>

lemma toJSON_demo_now: "toJSON demo_now = ''2019-10-28T19:01:15.122Z''"
  by (simp add: toJSON_def year_string_def pad_unroll demo_now_def digit_values del: pad.simps)

lemma dateString_demo_now: "dateString demo_now = ''2019-10-28_19-01-15-122''"
  by (simp add: dateString_eq year_string_def pad_unroll demo_now_def digit_values del: pad.simps)

lemma file_line_demo:
  "file_line demo_host demo_now ''I'' None [JStr x] = ''[I:2019-10-28T19:01:15Z] '' @ x @ [CHR 0x0A]"
  by (simp add: file_line_def toJSON_demo_now js_slice_def module_tag_def demo_host_def demo_fmt_def)

lemma console_line_demo:
  "console s \<Longrightarrow> timestamps s \<Longrightarrow> \<not> colors s \<Longrightarrow>
   writeConsole demo_host demo_now 3 None [JStr x] s w =
     (Inr (), emit (StdoutWrite (''(2019-10-28T19:01:15.122Z) [info] '' @ x @ [CHR 0x0A])) w)"
  by (simp add: writeConsole_def at_index_def levelsByVal_def toJSON_demo_now demo_host_def
      demo_fmt_def module_tag_def ERROR_LEVEL_def)

subsection \<open>Recovery from a stream error\<close>

text \<open>
  \<open>handleError\<close> calls \<open>close\<close> on the stream it holds, whether or not that throws,
  clears \<open>this.stream\<close>, and sets a timer due 10000 ms later unless one is set.
\<close>

lemma handleError_result:
  "handleError c t s w =
     (let w1 = (case stream s of None \<Rightarrow> w | Some st \<Rightarrow> emit (StreamClose st) w)
      in if timer s = None
         then (s\<lparr>stream := None, timer := Some (t + 10000)\<rparr>, emit (SetTimeout 10000) w1)
         else (s\<lparr>stream := None\<rparr>, w1))"
  by (auto simp: handleError_def stream_close_def retry_def Let_def split: option.splits)

lemma handleError_trace:
  "trace (snd (handleError c t s w)) =
     trace w @ (case stream s of None \<Rightarrow> [] | Some st \<Rightarrow> [StreamClose st]) @
     (if timer s = None then [SetTimeout 10000] else [])"
  by (simp add: handleError_result emit_def Let_def split: option.splits)

lemma handleError_one_timer:
  "stream (fst (handleError c t s w)) = None"
  "timer (fst (handleError c t s w)) = (if timer s = None then Some (t + 10000) else timer s)"
  by (simp_all add: handleError_result Let_def)

lemma retry_with_timer: "timer s \<noteq> None \<Longrightarrow> retry t s w = (s, w)"
  by (simp add: retry_def)

lemma handleError_log_returns:
  "lvl < 6 \<Longrightarrow> \<not> rotating s \<Longrightarrow>
   \<exists>r. fst (logger_log h now lvl m args (fst (handleError c t s w)) (snd (handleError c t s w))) = Inr r"
  by (rule log_returns) (auto simp: handleError_result Let_def)

lemma timer_fire_due:
  "timer s = Some due \<Longrightarrow>
   timer_fire h t s w = (if t < due then None else Some (reopen_call h t (s\<lparr>timer := None\<rparr>) w))"
  by (simp add: timer_fire_def)

lemma reopen_attempt:
  assumes "timer s = None" "stream s = None" "\<not> closed_flag s" "\<not> fs_unsupported h"
    "filename s = Some f"
  shows "reopen_call h t s w = (ReopenAwaitStream, s, emit (CreateWriteStream f) w)"
    and "reopen_resume t (IoFail code) ReopenAwaitStream s w =
           (ReopenResolved, s\<lparr>timer := Some (t + 10000)\<rparr>, emit (SetTimeout 10000) w)"
    and "reopen_resume t (IoOk n) ReopenAwaitStream s w =
           (ReopenResolved, s\<lparr>stream := Some (next_id w)\<rparr>, w\<lparr>next_id := Suc (next_id w)\<rparr>)"
  using assms by (simp_all add: reopen_call_def reopen_resume_def retry_def)

text \<open>
  \<open>close()\<close> leaves no timer, so no callback runs on the state it leaves, and a
  \<open>reopen\<close> called on a closed logger returns at once.
\<close>

lemma close_clears_timer:
  "timer (fst (snd (close_call h s w))) = None"
  "timer_fire h t (fst (snd (close_call h s w))) w' = None"
  by (auto simp: close_call_def timer_fire_def Let_def split: option.splits)

lemma reopen_closed: "closed_flag s \<Longrightarrow> reopen_call h t s w = (ReopenResolved, s, w)"
  by (simp add: reopen_call_def)

subsection \<open>Archive names of four-digit years\<close>

text \<open>
  For the years that \<open>toJSON\<close> writes with four digits, the archive names of one log
  file are ordered as their instants are, and no time stamp holds a colon or a period.
\<close>

lemma archive_order_four_digit_years:
  assumes "valid_instant a" "valid_instant b" "four_digit_year a" "four_digit_year b"
  shows "archive_entry base ext a \<le> archive_entry base ext b \<longleftrightarrow> instant_key a \<le> instant_key b"
proof -
  have "archive_entry base ext a \<le> archive_entry base ext b \<longleftrightarrow>
      dateString a @ ext \<le> dateString b @ ext"
    unfolding archive_entry_def
    using append_le_same [of "base @ ''_''" "dateString a @ ext" "dateString b @ ext"]
    by simp
  then show ?thesis
    using stamp_order [of a b ext] assms by simp
qed

section \<open>The claims\<close>

text \<open>
  C4. \<open>rotate()\<close> called while a rotation is in flight, or with no file name, or on an
  unsupported file system, resolves with \<open>null\<close> at once and leaves the logger and the
  world as they were. A call that passes the guards sets \<open>rotating\<close>, which stays set
  until the rotation settles, so that every further call in between is that no-op: one
  rotation runs at a time. When the close, the rename, the stat (a size or \<open>ENOENT\<close>)
  and the opening all succeed, the promise resolves with the archive path.
\<close>

theorem rotate_not_reentrant:
  "(rotating s \<or> \<not> filename_set s \<or> fs_unsupported h \<longrightarrow>
      rotate_call h s w = (RotResolved None, s, w))
   \<and> (\<not> rotating s \<and> filename_set s \<and> \<not> fs_unsupported h \<longrightarrow>
        (case rotate_call h s w of (t, s1, w1) \<Rightarrow>
           \<not> settled t \<and> rotating s1 \<and>
           (\<forall>ios. case rotate_run h now ios (t, s1, w1) of (t', s', w') \<Rightarrow>
              \<not> settled t' \<longrightarrow> rotating s' \<and> rotate_call h s' w' = (RotResolved None, s', w'))))
   \<and> (\<not> rotating s \<and> filename s = Some f \<and> f \<noteq> [] \<and> \<not> fs_unsupported h \<and>
        (io = IoOk n \<or> io = IoFail ''ENOENT'') \<longrightarrow>
        (case rotate_run h now [IoOk a, IoOk b, io, IoOk d] (rotate_call h s w) of (t', s', w') \<Rightarrow>
           t' = RotResolved (Some (archive_path h f now)) \<and> \<not> rotating s'))"
proof (intro conjI impI)
  assume "rotating s \<or> \<not> filename_set s \<or> fs_unsupported h"
  then show "rotate_call h s w = (RotResolved None, s, w)"
    by (auto simp: rotate_call_def)
next
  assume g: "\<not> rotating s \<and> filename_set s \<and> \<not> fs_unsupported h"
  then obtain ct s1 w1 where c: "rotate_call h s w = (RotInClose ct, s1, w1)" and r: "rotating s1"
    using rotate_call_starts [of s h w] by blast
  have "\<not> settled t' \<longrightarrow> rotating s' \<and> rotate_call h s' w' = (RotResolved None, s', w')"
    if "rotate_run h now ios (RotInClose ct, s1, w1) = (t', s', w')" for ios t' s' w'
    using rotate_run_rotating [OF r that] by (auto simp: rotate_call_def)
  then show "case rotate_call h s w of (t, s1, w1) \<Rightarrow>
           \<not> settled t \<and> rotating s1 \<and>
           (\<forall>ios. case rotate_run h now ios (t, s1, w1) of (t', s', w') \<Rightarrow>
              \<not> settled t' \<longrightarrow> rotating s' \<and> rotate_call h s' w' = (RotResolved None, s', w'))"
    using c r by (auto simp: settled_def)
next
  assume "\<not> rotating s \<and> filename s = Some f \<and> f \<noteq> [] \<and> \<not> fs_unsupported h \<and>
        (io = IoOk n \<or> io = IoFail ''ENOENT'')"
  then show "case rotate_run h now [IoOk a, IoOk b, io, IoOk d] (rotate_call h s w) of (t', s', w') \<Rightarrow>
           t' = RotResolved (Some (archive_path h f now)) \<and> \<not> rotating s'"
    using rotate_run_success [of s f h io n now a b d w] by auto
qed

theorem rotate_not_reentrant_witness:
  "rotating (demo_logger\<lparr>rotating := True\<rparr>)
   \<and> rotate_call demo_host (demo_logger\<lparr>rotating := True\<rparr>) demo_world =
     (RotResolved None, demo_logger\<lparr>rotating := True\<rparr>, demo_world)
   \<and> \<not> rotating demo_logger \<and> filename_set demo_logger \<and> \<not> fs_unsupported demo_host
   \<and> filename demo_logger = Some ''/var/log/debug.log''
   \<and> rotating (fst (snd (rotate_call demo_host demo_logger demo_world)))
   \<and> fst (rotate_run demo_host demo_now [IoOk 0, IoOk 0, IoFail ''ENOENT'', IoOk 0]
        (rotate_call demo_host demo_logger demo_world)) =
       RotResolved (Some (archive_path demo_host ''/var/log/debug.log'' demo_now))"
proof -
  have g: "\<not> rotating demo_logger \<and> filename_set demo_logger \<and> \<not> fs_unsupported demo_host"
    by (simp add: demo_logger_def demo_host_def init_logger_def filename_set_def)
  have f: "filename demo_logger = Some ''/var/log/debug.log''"
    by (simp add: demo_logger_def)
  note t = rotate_not_reentrant [of "demo_logger\<lparr>rotating := True\<rparr>" demo_host demo_world]
    rotate_not_reentrant [of demo_logger demo_host demo_world demo_now "''/var/log/debug.log''"
      "IoFail ''ENOENT''" 0 0 0 0]
  show ?thesis
    using t g f by (auto split: prod.splits)
qed

text \<open>
  C1. A \<open>writeStream\<close> call made while \<open>rotating\<close> is set appends its line to
  \<open>_buffer\<close> and calls nothing on any stream. The loop of \<open>rotate\<close> writes the buffered
  lines to the reopened stream first in, first out, and adds the length of each to
  \<open>_fileSize\<close>. So for a rotation whose operations succeed, with calls of \<open>writeStream\<close>
  between its steps: the new stream receives exactly the lines of those calls, once each
  and in the order of the calls, no other stream receives any of them, and the buffer
  ends empty.
\<close>

theorem rotation_buffers_writes:
  "(rotating s \<and> lvl < length prefixByVal \<longrightarrow>
      writeStream h now lvl m args s w =
        (Inr None, s\<lparr>buffer := buffer s @ [file_line h now (prefixByVal ! lvl) m args]\<rparr>, w))
   \<and> (stream s = Some st \<longrightarrow>
        drain s w =
          (Inr (), s\<lparr>buffer := [], fileSize := fileSize s + sum_list (map length (buffer s))\<rparr>,
           w\<lparr>trace := trace w @ map (StreamWrite st) (buffer s)\<rparr>))
   \<and> (\<not> rotating s \<and> buffer s = [] \<and> filename s = Some f \<and> f \<noteq> [] \<and> \<not> fs_unsupported h \<and>
        stream s = Some st0 \<and> list_all valid_call cs1 \<and> list_all valid_call cs2 \<and>
        list_all valid_call cs3 \<and> list_all valid_call cs4 \<longrightarrow>
        (case rotation_with_writes h now sz cs1 cs2 cs3 cs4 s w of (t, s', w') \<Rightarrow>
           t = RotResolved (Some (archive_path h f now)) \<and>
           stream s' = Some (next_id w) \<and> \<not> rotating s' \<and> buffer s' = [] \<and>
           fileSize s' = sz + sum_list (map length (map (line_of h) (cs1 @ cs2 @ cs3 @ cs4))) \<and>
           (\<forall>x. written_to x w' =
              written_to x w @ (if x = next_id w then map (line_of h) (cs1 @ cs2 @ cs3 @ cs4) else []))))"
proof (intro conjI impI)
  assume "rotating s \<and> lvl < length prefixByVal"
  then show "writeStream h now lvl m args s w =
        (Inr None, s\<lparr>buffer := buffer s @ [file_line h now (prefixByVal ! lvl) m args]\<rparr>, w)"
    by (simp add: writeStream_rotating line_of_def at_index_def)
next
  assume "stream s = Some st"
  then show "drain s w =
          (Inr (), s\<lparr>buffer := [], fileSize := fileSize s + sum_list (map length (buffer s))\<rparr>,
           w\<lparr>trace := trace w @ map (StreamWrite st) (buffer s)\<rparr>)"
    by (rule drain_stream)
next
  assume a: "\<not> rotating s \<and> buffer s = [] \<and> filename s = Some f \<and> f \<noteq> [] \<and> \<not> fs_unsupported h \<and>
        stream s = Some st0 \<and> list_all valid_call cs1 \<and> list_all valid_call cs2 \<and>
        list_all valid_call cs3 \<and> list_all valid_call cs4"
  define L where "L = map (line_of h) (cs1 @ cs2 @ cs3 @ cs4)"
  define A where "A = (if timer s \<noteq> None then [ClearTimeout] else []) @
    [StreamClose st0, FsRename f (archive_path h f now), FsStat f, CreateWriteStream f]"
  define B where "B = [FsReaddir (path_dirname h f)]"
  define wF where "wF = w\<lparr>trace := trace w @ A @ map (StreamWrite (next_id w)) L @ B,
    next_id := Suc (next_id w)\<rparr>"
  have res: "rotation_with_writes h now sz cs1 cs2 cs3 cs4 s w =
     (RotResolved (Some (archive_path h f now)),
      s\<lparr>timer := None, closing := False, closed_flag := False, stream := Some (next_id w),
        rotating := False, buffer := [], fileSize := sz + sum_list (map length L)\<rparr>, wF)"
    using a rotation_with_writes_result [of s f h st0 cs1 cs2 cs3 cs4 now sz w]
    by (simp add: L_def A_def B_def wF_def)
  have nw: "\<forall>e \<in> set (A @ B). \<forall>h' m'. e \<noteq> StreamWrite h' m'"
    by (simp add: A_def B_def)
  have wr: "written_to x wF = written_to x w @ (if x = next_id w then L else [])" for x
  proof -
    have "written_to x wF = written_to x (w\<lparr>trace := trace w @ (A @ map (StreamWrite (next_id w)) L @ B)\<rparr>)"
      by (simp add: wF_def written_to_def)
    also have "\<dots> = written_to x w @ written_to x (w\<lparr>trace := A @ map (StreamWrite (next_id w)) L @ B\<rparr>)"
      by (rule written_to_append)
    also have "written_to x (w\<lparr>trace := A @ map (StreamWrite (next_id w)) L @ B\<rparr>) =
        (if x = next_id w then L else [])"
      using written_to_between [OF nw, where x = x and w = w and y = "next_id w" and ms = L] by auto
    finally show ?thesis .
  qed
  show "case rotation_with_writes h now sz cs1 cs2 cs3 cs4 s w of (t, s', w') \<Rightarrow>
           t = RotResolved (Some (archive_path h f now)) \<and>
           stream s' = Some (next_id w) \<and> \<not> rotating s' \<and> buffer s' = [] \<and>
           fileSize s' = sz + sum_list (map length (map (line_of h) (cs1 @ cs2 @ cs3 @ cs4))) \<and>
           (\<forall>x. written_to x w' =
              written_to x w @ (if x = next_id w then map (line_of h) (cs1 @ cs2 @ cs3 @ cs4) else []))"
    unfolding res using wr by (simp add: L_def)
qed

theorem rotation_buffers_writes_witness:
  "rotating (demo_logger\<lparr>rotating := True\<rparr>) \<and> (3::nat) < length prefixByVal
   \<and> buffer (fst (snd (writeStream demo_host demo_now 3 None [JStr ''a''] (demo_logger\<lparr>rotating := True\<rparr>) demo_world)))
       = [file_line demo_host demo_now ''I'' None [JStr ''a'']]
   \<and> snd (snd (writeStream demo_host demo_now 3 None [JStr ''a''] (demo_logger\<lparr>rotating := True\<rparr>) demo_world))
       = demo_world
   \<and> stream (demo_logger\<lparr>buffer := [''x'', ''yz'']\<rparr>) = Some 0
   \<and> drain (demo_logger\<lparr>buffer := [''x'', ''yz'']\<rparr>) demo_world =
       (Inr (), demo_logger\<lparr>buffer := [], fileSize := 3\<rparr>,
        demo_world\<lparr>trace := [StreamWrite 0 ''x'', StreamWrite 0 ''yz'']\<rparr>)
   \<and> \<not> rotating demo_logger \<and> buffer demo_logger = []
   \<and> filename demo_logger = Some ''/var/log/debug.log'' \<and> \<not> fs_unsupported demo_host
   \<and> stream demo_logger = Some 0
   \<and> list_all valid_call [(demo_now, 3, None, [JStr ''a'']), (demo_now, 1, Some ''net'', [JStr ''b''])]
   \<and> written_to 1 (snd (snd (rotation_with_writes demo_host demo_now 0
        [(demo_now, 3, None, [JStr ''a''])] [] [(demo_now, 1, Some ''net'', [JStr ''b''])] []
        demo_logger demo_world)))
       = [line_of demo_host (demo_now, 3, None, [JStr ''a'']),
          line_of demo_host (demo_now, 1, Some ''net'', [JStr ''b''])]"
proof -
  have h2: "stream (demo_logger\<lparr>buffer := [''x'', ''yz'']\<rparr>) = Some 0"
    "fileSize demo_logger = 0" "trace demo_world = []"
    by (simp_all add: demo_logger_def init_logger_def demo_world_def)
  note t2 = rotation_buffers_writes [where s = "demo_logger\<lparr>buffer := [''x'', ''yz'']\<rparr>"
      and st = 0 and w = demo_world, THEN conjunct2, THEN conjunct1]
  have d: "drain (demo_logger\<lparr>buffer := [''x'', ''yz'']\<rparr>) demo_world =
       (Inr (), demo_logger\<lparr>buffer := [], fileSize := 3\<rparr>,
        demo_world\<lparr>trace := [StreamWrite 0 ''x'', StreamWrite 0 ''yz'']\<rparr>)"
    using t2 h2 by simp
  have v: "list_all valid_call [(demo_now, 3, None, [JStr ''a'']), (demo_now, 1, Some ''net'', [JStr ''b''])]"
    by (simp add: valid_call_def prefixByVal_def)
  have h1: "rotating (demo_logger\<lparr>rotating := True\<rparr>) \<and> (3::nat) < length prefixByVal"
    by (simp add: prefixByVal_def)
  have h3: "\<not> rotating demo_logger \<and> buffer demo_logger = [] \<and>
      filename demo_logger = Some ''/var/log/debug.log'' \<and> ''/var/log/debug.log'' \<noteq> [] \<and>
      \<not> fs_unsupported demo_host \<and> stream demo_logger = Some 0 \<and>
      list_all valid_call [(demo_now, 3, None, [JStr ''a''])] \<and> list_all valid_call [] \<and>
      list_all valid_call [(demo_now, 1, Some ''net'', [JStr ''b''])] \<and> list_all valid_call []"
    by (simp add: demo_logger_def init_logger_def demo_host_def valid_call_def prefixByVal_def)
  have e: "written_to 1 demo_world = []" "next_id demo_world = 1"
    by (simp_all add: written_to_def demo_world_def)
  note t1 = rotation_buffers_writes [of "demo_logger\<lparr>rotating := True\<rparr>" 3 demo_host demo_now None
      "[JStr ''a'']" demo_world]
  note t3 = rotation_buffers_writes [of demo_logger 3 demo_host demo_now None "[]" demo_world 0
      "''/var/log/debug.log''" 0 "[(demo_now, 3, None, [JStr ''a''])]" "[]"
      "[(demo_now, 1, Some ''net'', [JStr ''b''])]" "[]" 0]
  have p: "prefixByVal ! 3 = ''I''" by (simp add: prefixByVal_def)
  show ?thesis
    using t1 t3 h1 h2 h3 d v e p by (auto split: prod.splits)
qed

text \<open>
  C3, as amended. A direct write (\<open>rotating\<close> and \<open>closing\<close> unset, a stream open)
  sends the line to the stream and adds its length to \<open>_fileSize\<close>. It calls
  \<open>rotate()\<close> exactly when the new \<open>_fileSize\<close> is greater than or equal to
  \<open>maxFileSize\<close>, and not below. The call returns while the rotation is suspended at
  the close of the stream, with \<open>rotating\<close> set: the writer does not wait for it.
\<close>

theorem write_triggers_rotation:
  "\<not> rotating s \<and> \<not> closing s \<and> stream s = Some st \<and> at_index prefixByVal lvl = Some name \<longrightarrow>
    (case writeStream h now lvl m args s w of (r, s', w') \<Rightarrow>
       fileSize s' = fileSize s + length (file_line h now name m args) \<and>
       take (Suc (length (trace w))) (trace w') = trace w @ [StreamWrite st (file_line h now name m args)] \<and>
       (maxFileSize s \<le> fileSize s + length (file_line h now name m args) \<longrightarrow>
          (\<exists>t. r = Inr (Some t)) \<and>
          (filename_set s \<and> \<not> fs_unsupported h \<longrightarrow>
             r = Inr (Some (RotInClose CloseAwaitStream)) \<and> rotating s' \<and> closing s' \<and>
             stream s' = Some st \<and> last (trace w') = StreamClose st)) \<and>
       (fileSize s + length (file_line h now name m args) < maxFileSize s \<longrightarrow>
          r = Inr None \<and> s' = s\<lparr>fileSize := fileSize s + length (file_line h now name m args)\<rparr> \<and>
          w' = emit (StreamWrite st (file_line h now name m args)) w))"
  by (auto simp: writeStream_def rotate_call_def close_call_def emit_def Let_def filename_set_def
      split: prod.splits option.splits)

text \<open>
  The claim as written (rotation exactly when the count exceeds \<open>maxFileSize\<close>) fails
  when the count reaches \<open>maxFileSize\<close> without exceeding it: a line of 31 characters
  written to an empty file with \<open>maxFileSize = 31\<close> starts a rotation.
\<close>

theorem write_triggers_rotation_counterexample:
  "fileSize (fst (snd (writeStream demo_host demo_now 3 None [JStr ''hello'']
       (demo_logger\<lparr>maxFileSize := 31\<rparr>) demo_world))) = 31
   \<and> maxFileSize (fst (snd (writeStream demo_host demo_now 3 None [JStr ''hello'']
       (demo_logger\<lparr>maxFileSize := 31\<rparr>) demo_world))) = 31
   \<and> fst (writeStream demo_host demo_now 3 None [JStr ''hello'']
       (demo_logger\<lparr>maxFileSize := 31\<rparr>) demo_world) = Inr (Some (RotInClose CloseAwaitStream))
   \<and> rotating (fst (snd (writeStream demo_host demo_now 3 None [JStr ''hello'']
       (demo_logger\<lparr>maxFileSize := 31\<rparr>) demo_world)))"
proof -
  have len: "length (file_line demo_host demo_now ''I'' None [JStr ''hello'']) = 31"
    by (simp add: length_file_line demo_now_def module_tag_def truthy_module_def demo_host_def
        demo_fmt_def)
  have p: "at_index prefixByVal 3 = Some ''I''"
    by (simp add: at_index_def prefixByVal_def)
  have hs: "\<not> fs_unsupported demo_host"
    by (simp add: demo_host_def)
  show ?thesis
    by (simp add: writeStream_def p len hs demo_logger_def init_logger_def rotate_call_def
        close_call_def filename_set_def Let_def)
qed

theorem write_triggers_rotation_witness:
  "\<not> rotating demo_logger \<and> \<not> closing demo_logger \<and> stream demo_logger = Some 0 \<and>
   at_index prefixByVal 3 = Some ''I'' \<and>
   fileSize demo_logger + length (file_line demo_host demo_now ''I'' None [JStr ''hello'']) < maxFileSize demo_logger \<and>
   fst (writeStream demo_host demo_now 3 None [JStr ''hello''] demo_logger demo_world) = Inr None \<and>
   maxFileSize (demo_logger\<lparr>maxFileSize := 31\<rparr>) \<le>
     fileSize (demo_logger\<lparr>maxFileSize := 31\<rparr>) + length (file_line demo_host demo_now ''I'' None [JStr ''hello'']) \<and>
   filename_set (demo_logger\<lparr>maxFileSize := 31\<rparr>) \<and> \<not> fs_unsupported demo_host \<and>
   rotating (fst (snd (writeStream demo_host demo_now 3 None [JStr ''hello'']
       (demo_logger\<lparr>maxFileSize := 31\<rparr>) demo_world)))"
proof -
  have len: "length (file_line demo_host demo_now ''I'' None [JStr ''hello'']) = 31"
    by (simp add: length_file_line demo_now_def module_tag_def truthy_module_def demo_host_def
        demo_fmt_def)
  have p: "at_index prefixByVal 3 = Some ''I''"
    by (simp add: at_index_def prefixByVal_def)
  have g: "\<not> rotating demo_logger" "\<not> closing demo_logger" "stream demo_logger = Some 0"
    "fileSize demo_logger = 0" "maxFileSize demo_logger = 100" "filename_set demo_logger"
    "\<not> fs_unsupported demo_host"
    by (simp_all add: demo_logger_def init_logger_def filename_set_def demo_host_def)
  note t1 = write_triggers_rotation [of demo_logger 0 3 "''I''" demo_host demo_now None
      "[JStr ''hello'']" demo_world]
  note t2 = write_triggers_rotation [of "demo_logger\<lparr>maxFileSize := 31\<rparr>" 0 3 "''I''" demo_host
      demo_now None "[JStr ''hello'']" demo_world]
  show ?thesis
    using t1 t2 p len g by (auto simp: filename_set_def split: prod.splits)
qed

text \<open>
  C2. The code does not do what the claim says when \<open>maxFiles = 0\<close>.
  \<open>oldFiles.slice(0, -1 * this.maxFiles)\<close> is then \<open>slice(0, -0)\<close>, the empty array, so
  \<open>prune\<close> unlinks nothing, whatever the listing: with two archives it keeps both, where
  \<open>min(archiveCount, maxFiles)\<close> is 0. (With \<open>maxFiles = 2\<close> and archives of three
  instants it unlinks the oldest, as the claim says.)
\<close>

theorem prune_with_maxFiles_zero_keeps_all:
  "prune_selection 0 oldFiles = []
   \<and> prune_candidates ''debug'' ''.log''
        [''debug.log'', ''debug_2019-10-28_19-01-15-122.log'', ''debug_2019-10-29_08-30-00-007.log''] =
       Some (Inr [''debug_2019-10-28_19-01-15-122.log'', ''debug_2019-10-29_08-30-00-007.log''])
   \<and> prune demo_host (demo_logger\<lparr>maxFiles := 0\<rparr>) (\<lambda>p. True)
        [''debug.log'', ''debug_2019-10-28_19-01-15-122.log'', ''debug_2019-10-29_08-30-00-007.log'']
        ''/var/log'' ''debug'' ''.log'' = Some (Inr (), [])
   \<and> prune demo_host (demo_logger\<lparr>maxFiles := 2\<rparr>) (\<lambda>p. True)
        [''debug.log'', ''debug_2019-10-29_08-30-00-007.log'', ''debug_2019-10-28_19-01-15-122.log'',
         ''debug_2019-10-30_00-00-00-000.log'']
        ''/var/log'' ''debug'' ''.log'' = Some (Inr (), [''/var/log/debug_2019-10-28_19-01-15-122.log''])"
proof -
  have c1: "prune_candidates ''debug'' ''.log''
        [''debug.log'', ''debug_2019-10-28_19-01-15-122.log'', ''debug_2019-10-29_08-30-00-007.log''] =
       Some (Inr [''debug_2019-10-28_19-01-15-122.log'', ''debug_2019-10-29_08-30-00-007.log''])"
    by code_simp
  have c2: "prune_candidates ''debug'' ''.log''
        [''debug.log'', ''debug_2019-10-29_08-30-00-007.log'', ''debug_2019-10-28_19-01-15-122.log'',
         ''debug_2019-10-30_00-00-00-000.log''] =
       Some (Inr [''debug_2019-10-29_08-30-00-007.log'', ''debug_2019-10-28_19-01-15-122.log'',
         ''debug_2019-10-30_00-00-00-000.log''])"
    by code_simp
  have s2: "prune_selection 2 [''debug_2019-10-29_08-30-00-007.log'', ''debug_2019-10-28_19-01-15-122.log'',
         ''debug_2019-10-30_00-00-00-000.log''] = [''debug_2019-10-28_19-01-15-122.log'']"
    by code_simp
  have j: "path_join demo_host = (\<lambda>d f. d @ ''/'' @ f)"
    by (simp add: demo_host_def)
  show ?thesis
    by (simp add: prune_def c1 c2 s2 j prune_selection_zero)
qed

text \<open>
  C10. The code does not do what the claim says when the base name holds a character
  that \<open>RegExp\<close> reads as syntax: \<open>prune\<close> builds its pattern from the base name and the
  extension as they are. For the log file \<open>x_*.log\<close> the pattern is \<open>x_*_.*.log\<close>, which
  the active file's own name matches; it sorts before its archive, and with
  \<open>maxFiles = 1\<close> it is the entry \<open>prune\<close> unlinks. Nor do the candidates all contain
  the base name and an underscore: for \<open>my.app.log\<close> the entry \<open>myXapp_1.log\<close> is one.
\<close>

theorem prune_unlinks_active_file:
  "new_RegExp (''x_*'' @ ''_.*'' @ ''.log'') =
     Regexp [(Lit (CHR ''x''), Once), (Lit (CHR ''_''), ZeroOrMore), (Lit (CHR ''_''), Once), (Dot, ZeroOrMore),
       (Dot, Once), (Lit (CHR ''l''), Once), (Lit (CHR ''o''), Once), (Lit (CHR ''g''), Once)]
   \<and> prune_candidates ''x_*'' ''.log'' [''x_*.log'', ''x_*_2019-10-28_19-01-15-122.log''] =
       Some (Inr [''x_*.log'', ''x_*_2019-10-28_19-01-15-122.log''])
   \<and> prune demo_host (demo_logger\<lparr>maxFiles := 1\<rparr>) (\<lambda>p. True)
        [''x_*.log'', ''x_*_2019-10-28_19-01-15-122.log''] ''/var/log'' ''x_*'' ''.log'' =
       Some (Inr (), [''/var/log/x_*.log''])
   \<and> prune_candidates ''my.app'' ''.log'' [''my.app.log'', ''myXapp_1.log''] =
       Some (Inr [''myXapp_1.log''])"
proof -
  have r: "new_RegExp ''x_*_.*.log'' =
     Regexp [(Lit (CHR ''x''), Once), (Lit (CHR ''_''), ZeroOrMore), (Lit (CHR ''_''), Once), (Dot, ZeroOrMore),
       (Dot, Once), (Lit (CHR ''l''), Once), (Lit (CHR ''o''), Once), (Lit (CHR ''g''), Once)]"
    by code_simp
  have c1: "prune_candidates ''x_*'' ''.log'' [''x_*.log'', ''x_*_2019-10-28_19-01-15-122.log''] =
       Some (Inr [''x_*.log'', ''x_*_2019-10-28_19-01-15-122.log''])"
    by code_simp
  have s1: "prune_selection (Suc 0) [''x_*.log'', ''x_*_2019-10-28_19-01-15-122.log''] = [''x_*.log'']"
    by code_simp
  have c2: "prune_candidates ''my.app'' ''.log'' [''my.app.log'', ''myXapp_1.log''] =
       Some (Inr [''myXapp_1.log''])"
    by code_simp
  have j: "path_join demo_host = (\<lambda>d f. d @ ''/'' @ f)"
    by (simp add: demo_host_def)
  show ?thesis
    by (simp add: prune_def r c1 s1 c2 j)
qed

text \<open>
  C9. A context asked of the logger is cached by its module name: the second request
  returns the object of the first. \<open>LoggerContext.context\<close> does not go through that
  cache: asked for the module of the context it is called on, it returns a new object.
\<close>

theorem context_of_context_is_new:
  "(case logger_context m s w of (c1, s1, w1) \<Rightarrow> logger_context m s1 w1 = (c1, s1, w1))
   \<and> logger_context ''net'' demo_logger demo_world =
     (\<lparr>ctx_ref = 1, ctx_module = ''net''\<rparr>,
      demo_logger\<lparr>contexts := (contexts demo_logger)(''net'' \<mapsto> \<lparr>ctx_ref = 1, ctx_module = ''net''\<rparr>)\<rparr>,
      demo_world\<lparr>next_id := 2\<rparr>)
   \<and> fst (logger_context ''net''
        (demo_logger\<lparr>contexts := (contexts demo_logger)(''net'' \<mapsto> \<lparr>ctx_ref = 1, ctx_module = ''net''\<rparr>)\<rparr>)
        (demo_world\<lparr>next_id := 2\<rparr>)) = \<lparr>ctx_ref = 1, ctx_module = ''net''\<rparr>
   \<and> fst (ctx_context \<lparr>ctx_ref = 1, ctx_module = ''net''\<rparr> ''net''
        (demo_logger\<lparr>contexts := (contexts demo_logger)(''net'' \<mapsto> \<lparr>ctx_ref = 1, ctx_module = ''net''\<rparr>)\<rparr>)
        (demo_world\<lparr>next_id := 2\<rparr>)) = \<lparr>ctx_ref = 2, ctx_module = ''net''\<rparr>"
proof -
  have a: "case logger_context m s w of (c1, s1, w1) \<Rightarrow> logger_context m s1 w1 = (c1, s1, w1)"
    by (cases "contexts s m") (simp_all add: logger_context_def Let_def)
  have b: "logger_context ''net'' demo_logger demo_world =
     (\<lparr>ctx_ref = 1, ctx_module = ''net''\<rparr>,
      demo_logger\<lparr>contexts := (contexts demo_logger)(''net'' \<mapsto> \<lparr>ctx_ref = 1, ctx_module = ''net''\<rparr>)\<rparr>,
      demo_world\<lparr>next_id := 2\<rparr>)"
    by (simp add: logger_context_def demo_logger_def init_logger_def demo_world_def Let_def)
  have c: "fst (logger_context ''net''
        (demo_logger\<lparr>contexts := (contexts demo_logger)(''net'' \<mapsto> \<lparr>ctx_ref = 1, ctx_module = ''net''\<rparr>)\<rparr>)
        (demo_world\<lparr>next_id := 2\<rparr>)) = \<lparr>ctx_ref = 1, ctx_module = ''net''\<rparr>"
    by (simp add: logger_context_def)
  have d: "fst (ctx_context \<lparr>ctx_ref = 1, ctx_module = ''net''\<rparr> ''net''
        (demo_logger\<lparr>contexts := (contexts demo_logger)(''net'' \<mapsto> \<lparr>ctx_ref = 1, ctx_module = ''net''\<rparr>)\<rparr>)
        (demo_world\<lparr>next_id := 2\<rparr>)) = \<lparr>ctx_ref = 2, ctx_module = ''net''\<rparr>"
    by (simp add: ctx_context_def)
  from a b c d show ?thesis by simp
qed




text \<open>
  C7. The code does not do what the claim says after a rotation that failed. A log call
  brings the file to its maximal size and starts a rotation; the rotation closes the
  stream, which sets \<open>closed\<close>, and its rename is rejected. \<open>rotate\<close> has set
  \<open>rotating\<close> and clears it on its last lines only, so the rotation is over and the
  flag stays set. \<open>close()\<close> then completes at once. The next \<open>info\<close> call passes the
  test \<open>closed && !rotating\<close>: it writes to the console and appends its line to
  \<open>_buffer\<close>, which nothing empties any more.
\<close>

theorem log_after_close_with_stuck_rotating:
  "logger_info demo_host demo_now [JStr ''hello''] (demo_logger\<lparr>maxFileSize := 31\<rparr>) demo_world =
     (Inr (Some (RotInClose CloseAwaitStream)),
      demo_logger\<lparr>maxFileSize := 31, fileSize := 31, rotating := True, closing := True\<rparr>,
      \<lparr> trace = [StdoutWrite (''(2019-10-28T19:01:15.122Z) [info] hello'' @ [CHR 0x0A]),
                 StreamWrite 0 (''[I:2019-10-28T19:01:15Z] hello'' @ [CHR 0x0A]),
                 StreamClose 0],
        next_id = 1 \<rparr>)
   \<and> rotate_run demo_host demo_now [IoOk 0, IoFail ''EACCES'']
        (RotInClose CloseAwaitStream,
         demo_logger\<lparr>maxFileSize := 31, fileSize := 31, rotating := True, closing := True\<rparr>,
         \<lparr> trace = [StdoutWrite (''(2019-10-28T19:01:15.122Z) [info] hello'' @ [CHR 0x0A]),
                    StreamWrite 0 (''[I:2019-10-28T19:01:15Z] hello'' @ [CHR 0x0A]),
                    StreamClose 0],
           next_id = 1 \<rparr>) =
       (RotRejected (IoError ''EACCES''), demo_stuck, demo_stuck_world)
   \<and> settled (RotRejected (IoError ''EACCES''))
   \<and> close_run demo_host (IoOk 0) demo_stuck demo_stuck_world =
       (CloseResolved, demo_stuck, demo_stuck_world)
   \<and> closed_flag demo_stuck \<and> rotating demo_stuck \<and> buffer demo_stuck = []
   \<and> logger_info demo_host demo_now [JStr ''again''] demo_stuck demo_stuck_world =
       (Inr None,
        demo_stuck\<lparr>buffer := [''[I:2019-10-28T19:01:15Z] again'' @ [CHR 0x0A]]\<rparr>,
        emit (StdoutWrite (''(2019-10-28T19:01:15.122Z) [info] again'' @ [CHR 0x0A])) demo_stuck_world)"
proof -
  have p: "at_index prefixByVal 3 = Some ''I''"
    by (simp add: at_index_def prefixByVal_def)
  have g: "console demo_logger" "timestamps demo_logger" "\<not> colors demo_logger"
    "level demo_logger = 5" "\<not> closed_flag demo_logger" "\<not> rotating demo_logger"
    "stream demo_logger = Some 0" "\<not> closing demo_logger" "fileSize demo_logger = 0"
    "filename demo_logger = Some ''/var/log/debug.log''" "timer demo_logger = None"
    "buffer demo_logger = []" "\<not> fs_unsupported demo_host"
    by (simp_all add: demo_logger_def init_logger_def demo_host_def)
  have a: "logger_info demo_host demo_now [JStr ''hello''] (demo_logger\<lparr>maxFileSize := 31\<rparr>) demo_world =
     (Inr (Some (RotInClose CloseAwaitStream)),
      demo_logger\<lparr>maxFileSize := 31, fileSize := 31, rotating := True, closing := True\<rparr>,
      \<lparr> trace = [StdoutWrite (''(2019-10-28T19:01:15.122Z) [info] hello'' @ [CHR 0x0A]),
                 StreamWrite 0 (''[I:2019-10-28T19:01:15Z] hello'' @ [CHR 0x0A]),
                 StreamClose 0],
        next_id = 1 \<rparr>)"
    using g
    by (simp add: logger_info_def leveled_def logger_log_def console_line_demo writeStream_def p
        file_line_demo rotate_call_def close_call_def filename_set_def emit_def demo_world_def)
  have b: "rotate_run demo_host demo_now [IoOk 0, IoFail ''EACCES'']
        (RotInClose CloseAwaitStream,
         demo_logger\<lparr>maxFileSize := 31, fileSize := 31, rotating := True, closing := True\<rparr>,
         \<lparr> trace = [StdoutWrite (''(2019-10-28T19:01:15.122Z) [info] hello'' @ [CHR 0x0A]),
                    StreamWrite 0 (''[I:2019-10-28T19:01:15Z] hello'' @ [CHR 0x0A]),
                    StreamClose 0],
           next_id = 1 \<rparr>) =
       (RotRejected (IoError ''EACCES''), demo_stuck, demo_stuck_world)"
    using g
    by (simp add: rotate_resume_def close_resume_def dateString_demo_now emit_def demo_stuck_def
        demo_stuck_world_def Let_def demo_host_def)
  have s: "closed_flag demo_stuck" "rotating demo_stuck" "buffer demo_stuck = []"
    "stream demo_stuck = None" "timer demo_stuck = None" "level demo_stuck = 5"
    "console demo_stuck" "timestamps demo_stuck" "\<not> colors demo_stuck" "fileSize demo_stuck = 0"
    by (simp_all add: demo_stuck_def demo_logger_def init_logger_def demo_host_def)
  have c: "close_run demo_host (IoOk 0) demo_stuck demo_stuck_world =
       (CloseResolved, demo_stuck, demo_stuck_world)"
    using s g(13)
    by (simp add: close_run_def close_call_def close_resume_def)
  have d: "logger_info demo_host demo_now [JStr ''again''] demo_stuck demo_stuck_world =
       (Inr None,
        demo_stuck\<lparr>buffer := [''[I:2019-10-28T19:01:15Z] again'' @ [CHR 0x0A]]\<rparr>,
        emit (StdoutWrite (''(2019-10-28T19:01:15.122Z) [info] again'' @ [CHR 0x0A])) demo_stuck_world)"
    using s
    by (simp add: logger_info_def leveled_def logger_log_def console_line_demo writeStream_def p
        file_line_demo)
  from a b c d s show ?thesis
    by (simp add: settled_def)
qed

text \<open>
  C5. The code does not do what the claim says when \<open>close()\<close> is called while
  \<open>reopen\<close> awaits its stream. A stream error at 5000 makes \<open>handleError\<close> close the
  stream, whether or not that close throws, clear \<open>this.stream\<close> and set the retry
  timer. The timer fires at 15000 and \<open>reopen\<close> starts to open the file. \<open>close()\<close>
  finds no timer to clear and no stream to close, and completes: the logger is closed.
  \<open>reopen\<close> tests \<open>closed\<close> before its \<open>await\<close> only. When the stream opens,
  \<open>reopen\<close> installs it on the closed logger. When the opening fails, \<open>reopen\<close>
  calls \<open>retry\<close>, which sets a new timer on the closed logger; its callback runs 10000
  ms later and calls \<open>reopen\<close> once more.
\<close>

theorem reopen_in_flight_outlives_close:
  "handleError False 5000 demo_logger demo_world = (demo_broken, demo_broken_world)
   \<and> handleError True 5000 demo_logger demo_world = (demo_broken, demo_broken_world)
   \<and> timer_fire demo_host 14999 demo_broken demo_broken_world = None
   \<and> timer_fire demo_host 15000 demo_broken demo_broken_world =
       Some (ReopenAwaitStream, demo_broken\<lparr>timer := None\<rparr>, demo_reopen_world)
   \<and> close_run demo_host (IoOk 0) (demo_broken\<lparr>timer := None\<rparr>) demo_reopen_world =
       (CloseResolved, demo_closed, demo_reopen_world)
   \<and> closed_flag demo_closed \<and> timer demo_closed = None \<and> stream demo_closed = None
   \<and> reopen_resume 15020 (IoOk 0) ReopenAwaitStream demo_closed demo_reopen_world =
       (ReopenResolved, demo_closed\<lparr>stream := Some 1\<rparr>, demo_reopen_world\<lparr>next_id := 2\<rparr>)
   \<and> reopen_resume 15020 (IoFail ''EACCES'') ReopenAwaitStream demo_closed demo_reopen_world =
       (ReopenResolved, demo_closed\<lparr>timer := Some 25020\<rparr>, emit (SetTimeout 10000) demo_reopen_world)
   \<and> timer_fire demo_host 25020 (demo_closed\<lparr>timer := Some 25020\<rparr>)
        (emit (SetTimeout 10000) demo_reopen_world) =
       Some (ReopenResolved, demo_closed, emit (SetTimeout 10000) demo_reopen_world)"
proof -
  have g: "timer demo_broken = Some 15000" "stream demo_broken = None" "\<not> closed_flag demo_broken"
    "filename demo_broken = Some ''/var/log/debug.log''" "\<not> fs_unsupported demo_host"
    "fileSize demo_broken = 0"
    by (simp_all add: demo_broken_def demo_logger_def init_logger_def demo_host_def)
  have h: "handleError c 5000 demo_logger demo_world = (demo_broken, demo_broken_world)" for c
    by (simp add: handleError_result Let_def demo_broken_def demo_broken_world_def
        demo_world_def demo_logger_def init_logger_def)
       (simp add: emit_def)
  have a: "timer_fire demo_host 14999 demo_broken demo_broken_world = None"
    "timer_fire demo_host 15000 demo_broken demo_broken_world =
       Some (ReopenAwaitStream, demo_broken\<lparr>timer := None\<rparr>, demo_reopen_world)"
    using g
    by (simp_all add: timer_fire_def reopen_call_def emit_def demo_broken_world_def
        demo_reopen_world_def)
  have b: "close_run demo_host (IoOk 0) (demo_broken\<lparr>timer := None\<rparr>) demo_reopen_world =
       (CloseResolved, demo_closed, demo_reopen_world)"
    using g by (simp add: close_run_def close_call_def close_resume_def demo_closed_def)
  have c: "closed_flag demo_closed" "timer demo_closed = None" "stream demo_closed = None"
    using g by (simp_all add: demo_closed_def)
  have d: "reopen_resume 15020 (IoOk 0) ReopenAwaitStream demo_closed demo_reopen_world =
       (ReopenResolved, demo_closed\<lparr>stream := Some 1\<rparr>, demo_reopen_world\<lparr>next_id := 2\<rparr>)"
    by (simp add: reopen_resume_def demo_reopen_world_def)
  have e: "reopen_resume 15020 (IoFail ''EACCES'') ReopenAwaitStream demo_closed demo_reopen_world =
       (ReopenResolved, demo_closed\<lparr>timer := Some 25020\<rparr>, emit (SetTimeout 10000) demo_reopen_world)"
    using c by (simp add: reopen_resume_def retry_def)
  have f: "timer_fire demo_host 25020 (demo_closed\<lparr>timer := Some 25020\<rparr>)
        (emit (SetTimeout 10000) demo_reopen_world) =
       Some (ReopenResolved, demo_closed, emit (SetTimeout 10000) demo_reopen_world)"
    using c by (simp add: timer_fire_def reopen_call_def)
  from h [of False] h [of True] a b c d e f show ?thesis by simp
qed

text \<open>
  C6. The code does not do what the claim says across the year 10000. \<open>toJSON\<close> writes
  a year above 9999 with a sign and six digits, and \<open>+\<close> sorts before every digit: the
  rotation of the year 10000 renames the log file to a name that sorts before the name
  given in the year 9999. The names are in no chronological order, which \<open>prune\<close>
  relies on: told to keep one archive, it unlinks the newer one. (For two instants of
  four-digit years the order of the names is the order of the instants, and a time stamp
  holds neither a colon nor a period: \<open>archive_order_four_digit_years\<close>,
  \<open>dateString_safe\<close>.)
\<close>

theorem archive_of_year_10000_sorts_first:
  "valid_instant (demo_now\<lparr>year := 9999\<rparr>) \<and> valid_instant (demo_now\<lparr>year := 10000\<rparr>)
   \<and> instant_key (demo_now\<lparr>year := 9999\<rparr>) < instant_key (demo_now\<lparr>year := 10000\<rparr>)
   \<and> dateString (demo_now\<lparr>year := 10000\<rparr>) = ''+010000-10-28_19-01-15-122''
   \<and> rotate_run demo_host (demo_now\<lparr>year := 9999\<rparr>) [IoOk 0]
        (rotate_call demo_host demo_logger demo_world) =
       (RotAwaitRename ''/var/log'' ''debug'' ''.log'' ''/var/log/debug_9999-10-28_19-01-15-122.log'',
        demo_logger\<lparr>rotating := True, stream := None, closed_flag := True\<rparr>,
        demo_world\<lparr>trace := [StreamClose 0,
          FsRename ''/var/log/debug.log'' ''/var/log/debug_9999-10-28_19-01-15-122.log'']\<rparr>)
   \<and> rotate_run demo_host (demo_now\<lparr>year := 10000\<rparr>) [IoOk 0]
        (rotate_call demo_host demo_logger demo_world) =
       (RotAwaitRename ''/var/log'' ''debug'' ''.log'' ''/var/log/debug_+010000-10-28_19-01-15-122.log'',
        demo_logger\<lparr>rotating := True, stream := None, closed_flag := True\<rparr>,
        demo_world\<lparr>trace := [StreamClose 0,
          FsRename ''/var/log/debug.log'' ''/var/log/debug_+010000-10-28_19-01-15-122.log'']\<rparr>)
   \<and> archive_entry ''debug'' ''.log'' (demo_now\<lparr>year := 10000\<rparr>)
       < archive_entry ''debug'' ''.log'' (demo_now\<lparr>year := 9999\<rparr>)
   \<and> prune_selection 1 [''debug_9999-10-28_19-01-15-122.log'', ''debug_+010000-10-28_19-01-15-122.log''] =
       [''debug_+010000-10-28_19-01-15-122.log'']
   \<and> prune demo_host (demo_logger\<lparr>maxFiles := 1\<rparr>) (\<lambda>p. True)
        [''debug.log'', ''debug_9999-10-28_19-01-15-122.log'', ''debug_+010000-10-28_19-01-15-122.log'']
        ''/var/log'' ''debug'' ''.log'' =
       Some (Inr (), [''/var/log/debug_+010000-10-28_19-01-15-122.log''])"
proof -
  have v: "valid_instant (demo_now\<lparr>year := 9999\<rparr>) \<and> valid_instant (demo_now\<lparr>year := 10000\<rparr>)
      \<and> instant_key (demo_now\<lparr>year := 9999\<rparr>) < instant_key (demo_now\<lparr>year := 10000\<rparr>)"
    by (simp add: valid_instant_def instant_key_def demo_now_def)
  have g: "\<not> rotating demo_logger" "stream demo_logger = Some 0" "timer demo_logger = None"
    "filename demo_logger = Some ''/var/log/debug.log''" "\<not> fs_unsupported demo_host"
    "fileSize demo_logger = 0" "\<not> closing demo_logger"
    by (simp_all add: demo_logger_def init_logger_def demo_host_def)
  have r: "rotate_run demo_host now [IoOk 0] (rotate_call demo_host demo_logger demo_world) =
       (RotAwaitRename ''/var/log'' ''debug'' ''.log'' (''/var/log/debug_'' @ dateString now @ ''.log''),
        demo_logger\<lparr>rotating := True, stream := None, closed_flag := True\<rparr>,
        demo_world\<lparr>trace := [StreamClose 0,
          FsRename ''/var/log/debug.log'' (''/var/log/debug_'' @ dateString now @ ''.log'')]\<rparr>)" for now
    using g
    by (simp add: rotate_call_def filename_set_def close_call_def rotate_resume_def close_resume_def
        Let_def emit_def demo_world_def demo_host_def)
  have l: "archive_entry ''debug'' ''.log'' (demo_now\<lparr>year := 10000\<rparr>)
       < archive_entry ''debug'' ''.log'' (demo_now\<lparr>year := 9999\<rparr>)"
    by (simp add: archive_entry_def dateString_year_10000 dateString_year_9999 less_char_def)
  have c: "prune_candidates ''debug'' ''.log''
        [''debug.log'', ''debug_9999-10-28_19-01-15-122.log'', ''debug_+010000-10-28_19-01-15-122.log''] =
       Some (Inr [''debug_9999-10-28_19-01-15-122.log'', ''debug_+010000-10-28_19-01-15-122.log''])"
    by code_simp
  have s: "prune_selection (Suc 0) [''debug_9999-10-28_19-01-15-122.log'', ''debug_+010000-10-28_19-01-15-122.log''] =
       [''debug_+010000-10-28_19-01-15-122.log'']"
    by code_simp
  have j: "path_join demo_host = (\<lambda>d f. d @ ''/'' @ f)"
    by (simp add: demo_host_def)
  have p: "prune demo_host (demo_logger\<lparr>maxFiles := 1\<rparr>) (\<lambda>p. True)
        [''debug.log'', ''debug_9999-10-28_19-01-15-122.log'', ''debug_+010000-10-28_19-01-15-122.log'']
        ''/var/log'' ''debug'' ''.log'' =
       Some (Inr (), [''/var/log/debug_+010000-10-28_19-01-15-122.log''])"
    by (simp add: prune_def c s j)
  from v l p s r [of "demo_now\<lparr>year := 9999\<rparr>"] r [of "demo_now\<lparr>year := 10000\<rparr>"]
    dateString_year_10000 dateString_year_9999
  show ?thesis by simp
qed

end
